theory Spec2Isabelle
  imports Complex_Main
begin

section \<open>Floating-point values as numpy sees them\<close>

text \<open>
  The notebooks compute with numpy arrays of 64-bit floats. Finite values are modelled
  by exact real numbers (no rounding, no overflow); the three non-finite values that
  numpy produces instead of raising (\<open>inf\<close>, \<open>-inf\<close>, \<open>nan\<close>) are kept apart,
  because HOL's own \<open>x / 0 = 0\<close> and \<open>sqrt (- x) = - sqrt x\<close> are not what numpy does.
  Zero is unsigned and counts as \<open>+0.0\<close>.
\<close>

datatype npfloat = Fin real | PInf | MInf | NaN

datatype error = ZeroDivisionError | ValueError | IndexError | NameError | TypeError

text \<open>The sign of a value, and the infinity (or nan, for sign 0) of a given sign.\<close>

fun np_sign :: "npfloat \<Rightarrow> real" where
  "np_sign (Fin a) = sgn a"
| "np_sign PInf = 1"
| "np_sign MInf = - 1"
| "np_sign NaN = 0"

definition inf_of_sign :: "real \<Rightarrow> npfloat" where
  "inf_of_sign s = (if s = 0 then NaN else if 0 < s then PInf else MInf)"

fun np_mul :: "npfloat \<Rightarrow> npfloat \<Rightarrow> npfloat" where
  "np_mul NaN y = NaN"
| "np_mul x NaN = NaN"
| "np_mul (Fin a) (Fin b) = Fin (a * b)"
| "np_mul x y = inf_of_sign (np_sign x * np_sign y)"

fun np_div :: "npfloat \<Rightarrow> npfloat \<Rightarrow> npfloat" where
  "np_div NaN y = NaN"
| "np_div x NaN = NaN"
| "np_div (Fin a) (Fin b) = (if b = 0 then inf_of_sign (sgn a) else Fin (a / b))"
| "np_div (Fin a) y = Fin 0"
| "np_div x (Fin b) = inf_of_sign (np_sign x * (if b < 0 then - 1 else 1))"
| "np_div x y = NaN"

fun np_add :: "npfloat \<Rightarrow> npfloat \<Rightarrow> npfloat" where
  "np_add NaN y = NaN"
| "np_add x NaN = NaN"
| "np_add (Fin a) (Fin b) = Fin (a + b)"
| "np_add (Fin a) y = y"
| "np_add x (Fin b) = x"
| "np_add x y = (if x = y then x else NaN)"

fun np_sqrt :: "npfloat \<Rightarrow> npfloat" where
  "np_sqrt (Fin a) = (if a < 0 then NaN else Fin (sqrt a))"
| "np_sqrt PInf = PInf"
| "np_sqrt MInf = NaN"
| "np_sqrt NaN = NaN"

text \<open>Comparisons: every comparison with \<open>nan\<close> is false.\<close>

fun np_lt :: "npfloat \<Rightarrow> npfloat \<Rightarrow> bool" where
  "np_lt NaN y = False"
| "np_lt x NaN = False"
| "np_lt (Fin a) (Fin b) = (a < b)"
| "np_lt x PInf = (x \<noteq> PInf)"
| "np_lt MInf y = (y \<noteq> MInf)"
| "np_lt x y = False"

fun np_ge :: "npfloat \<Rightarrow> npfloat \<Rightarrow> bool" where
  "np_ge NaN y = False"
| "np_ge x NaN = False"
| "np_ge x y = (\<not> np_lt x y)"

section \<open>Arrays and the numpy functions the notebooks call\<close>

text \<open>
  A two-dimensional array is the list of its rows. The maps of the claims are square:
  \<open>is_grid N a\<close> says that \<open>a\<close> has \<open>N\<close> rows of \<open>N\<close> entries. numpy refuses or
  broadcasts operands of different shapes; the model follows it on grids of one shape
  only, which is what every claim is about.
\<close>

type_synonym 'a array2 = "'a list list"

definition is_grid :: "nat \<Rightarrow> 'a array2 \<Rightarrow> bool" where
  "is_grid N a \<longleftrightarrow> length a = N \<and> (\<forall>row \<in> set a. length row = N)"

definition ncols :: "'a array2 \<Rightarrow> nat" where
  "ncols a = (case a of [] \<Rightarrow> 0 | row # _ \<Rightarrow> length row)"

text \<open>\<^verbatim>\<open>np.outer(a, b)[i][j] = a[i] * b[j]\<close>\<close>

definition outer :: "npfloat list \<Rightarrow> npfloat list \<Rightarrow> npfloat array2" where
  "outer a b = map (\<lambda>x. map (\<lambda>y. np_mul x y) b) a"

text \<open>
  \<^verbatim>\<open>np.roll(x, s)[i] = x[(i - s) mod n]\<close>, and \<^verbatim>\<open>np.fft.fftshift\<close> rolls every axis
  by half its length (rounded down): \<^verbatim>\<open>fftshift([0, 1, 2, 3, 4]) = [3, 4, 0, 1, 2]\<close>.
\<close>

definition roll :: "nat \<Rightarrow> 'a list \<Rightarrow> 'a list" where
  "roll s xs = rotate (length xs - s mod length xs) xs"

definition fftshift1 :: "'a list \<Rightarrow> 'a list" where
  "fftshift1 xs = roll (length xs div 2) xs"

definition fftshift :: "'a array2 \<Rightarrow> 'a array2" where
  "fftshift a = fftshift1 (map fftshift1 a)"

text \<open>
  \<^verbatim>\<open>np.fft.ifft2\<close>, the inverse discrete Fourier transform in two dimensions:
  \<open>F[k, l] = 1/(n m) \<Sum>\<^sub>p \<Sum>\<^sub>q a[p, q] exp (+ 2 \<pi> i (k p / n + l q / m))\<close>.
  numpy raises ValueError for an axis without data points.
  \<^verbatim>\<open>np.fft.fft2\<close> is the forward transform: the exponent has the other sign and the sum
  is not divided.
\<close>

definition ifft2 :: "complex array2 \<Rightarrow> error + complex array2" where
  "ifft2 a =
     (let n = length a; m = ncols a
      in if n = 0 \<or> m = 0 then Inl ValueError
         else Inr (map (\<lambda>k. map (\<lambda>l.
                (\<Sum>p<n. \<Sum>q<m. a ! p ! q *
                    cis (2 * pi * (real k * real p / real n + real l * real q / real m)))
                / (real n * real m)) [0..<m]) [0..<n]))"

definition fft2 :: "complex array2 \<Rightarrow> error + complex array2" where
  "fft2 a =
     (let n = length a; m = ncols a
      in if n = 0 \<or> m = 0 then Inl ValueError
         else Inr (map (\<lambda>k. map (\<lambda>l.
                (\<Sum>p<n. \<Sum>q<m. a ! p ! q *
                    cis (- (2 * pi * (real k * real p / real n + real l * real q / real m)))))
                [0..<m]) [0..<n]))"

text \<open>\<^verbatim>\<open>np.mean\<close> of a one-dimensional array: \<open>nan\<close> (with a warning) when it is empty.\<close>

definition np_mean :: "real list \<Rightarrow> npfloat" where
  "np_mean xs = (if xs = [] then NaN else Fin (sum_list xs / real (length xs)))"

text \<open>
  Python's \<^verbatim>\<open>int(x)\<close> of a float, and numpy's cast of a float stored into an integer
  array: both drop the fractional part (round towards zero). Overflow of the 64-bit
  integer is not modelled.
\<close>

definition py_int :: "real \<Rightarrow> int" where
  "py_int x = (if 0 \<le> x then \<lfloor>x\<rfloor> else \<lceil>x\<rceil>)"

text \<open>
  \<^verbatim>\<open>b.nonzero()\<close> of a boolean array: the index pairs of its true entries, in row-major
  order. \<^verbatim>\<open>a[idx]\<close> with such index pairs: the entries there, IndexError when a pair
  is out of range.
\<close>

definition nonzero :: "bool array2 \<Rightarrow> (nat \<times> nat) list" where
  "nonzero b =
     concat (map (\<lambda>r. map (\<lambda>c. (r, c)) (filter (\<lambda>c. b ! r ! c) [0..<length (b ! r)]))
                 [0..<length b])"

definition fancy_index :: "'a array2 \<Rightarrow> (nat \<times> nat) list \<Rightarrow> error + 'a list" where
  "fancy_index a idx =
     (if \<forall>(r, c) \<in> set idx. r < length a \<and> c < length (a ! r)
      then Inr (map (\<lambda>(r, c). a ! r ! c) idx) else Inl IndexError)"

section \<open>The binned power spectrum (simulation notebook)\<close>

text \<open>
  \<^verbatim>\<open>
  def calculate_2d_spectrum(Map1,Map2,delta_ell,ell_max,pix_size,N):
      N=int(N)
      ones = np.ones(N)
      inds  = (np.arange(N)+.5 - N/2.) /(N-1.)
      kX = np.outer(ones,inds) / (pix_size/60. * np.pi/180.)
      kY = np.transpose(kX)
      K = np.sqrt(kX**2. + kY**2.)
      ell_scale_factor = 2. * np.pi
      ell2d = K * ell_scale_factor
      N_bins = int(ell_max/delta_ell)
      ell_array = np.arange(N_bins)
      CL_array = np.zeros(N_bins)
      FMap1 = np.fft.ifft2(np.fft.fftshift(Map1))
      FMap2 = np.fft.ifft2(np.fft.fftshift(Map2))
      PSMap = np.fft.fftshift(np.real(np.conj(FMap1) * FMap2))
      i = 0
      while (i < N_bins):
          ell_array[i] = (i + 0.5) * delta_ell
          inds_in_bin = ((ell2d >= (i* delta_ell)) * (ell2d < ((i+1)* delta_ell))).nonzero()
          CL_array[i] = np.mean(PSMap[inds_in_bin])
          i = i + 1
      return(ell_array,CL_array*np.sqrt(pix_size /60.* np.pi/180.)*2.)
  \<close>
  \<open>N\<close> is a natural number, the other parameters are finite floats, the maps hold
  finite floats. \<open>ell_array\<close> is an array of integers (\<^verbatim>\<open>np.arange\<close> of an int),
  \<open>CL_array\<close> an array of floats. The division \<^verbatim>\<open>ell_max/delta_ell\<close> is Python's and
  raises ZeroDivisionError; \<^verbatim>\<open>np.zeros\<close> raises ValueError for a negative length; the
  divisions of arrays are numpy's and give \<open>inf\<close> or \<open>nan\<close>.
\<close>

definition ell2d_grid :: "real \<Rightarrow> nat \<Rightarrow> npfloat array2" where
  "ell2d_grid pix_size N =
     (let ones = replicate N (Fin 1);
          inds = map (\<lambda>k. np_div (Fin (real k + 0.5 - real N / 2)) (Fin (real N - 1))) [0..<N];
          kX = map (map (\<lambda>v. np_div v (Fin (pix_size / 60 * pi / 180)))) (outer ones inds);
          kY = transpose kX;
          K = map2 (map2 (\<lambda>x y. np_sqrt (np_add (np_mul x x) (np_mul y y)))) kX kY;
          ell_scale_factor = 2 * pi;
          ell2d = map (map (\<lambda>v. np_mul v (Fin ell_scale_factor))) K
      in ell2d)"

text \<open>\<^verbatim>\<open>np.real(np.conj(FMap1) * FMap2)\<close>, entry by entry.\<close>

definition cross_power :: "complex array2 \<Rightarrow> complex array2 \<Rightarrow> real array2" where
  "cross_power FMap1 FMap2 = map2 (map2 (\<lambda>x y. Re (cnj x * y))) FMap1 FMap2"

text \<open>The three lines that compute \<open>FMap1\<close>, \<open>FMap2\<close> and \<open>PSMap\<close>.\<close>

definition power_map :: "real array2 \<Rightarrow> real array2 \<Rightarrow> error + real array2" where
  "power_map Map1 Map2 =
     (case ifft2 (fftshift (map (map complex_of_real) Map1)) of
        Inl e \<Rightarrow> Inl e
      | Inr FMap1 \<Rightarrow>
          (case ifft2 (fftshift (map (map complex_of_real) Map2)) of
             Inl e \<Rightarrow> Inl e
           | Inr FMap2 \<Rightarrow> Inr (fftshift (cross_power FMap1 FMap2))))"

text \<open>\<^verbatim>\<open>(ell2d >= lo) * (ell2d < hi)\<close>: the product of two boolean arrays.\<close>

definition bin_mask :: "npfloat array2 \<Rightarrow> real \<Rightarrow> real \<Rightarrow> bool array2" where
  "bin_mask ell2d lo hi =
     map2 (map2 (\<and>)) (map (map (\<lambda>v. np_ge v (Fin lo))) ell2d)
                      (map (map (\<lambda>v. np_lt v (Fin hi))) ell2d)"

text \<open>
  The \<^verbatim>\<open>while\<close> loop, from bin \<open>i\<close> on. It writes entry \<open>i\<close> of both arrays in place;
  the arrays are passed along and returned.
\<close>

function fill_spectra ::
  "npfloat array2 \<Rightarrow> real array2 \<Rightarrow> real \<Rightarrow> nat \<Rightarrow> nat \<Rightarrow> int list \<times> npfloat list
     \<Rightarrow> error + (int list \<times> npfloat list)" where
  "fill_spectra ell2d PSMap delta_ell N_bins i (ell_array, CL_array) =
     (if i < N_bins then
        let ell_array' = ell_array[i := py_int ((real i + 0.5) * delta_ell)];
            inds_in_bin = nonzero (bin_mask ell2d (real i * delta_ell) ((real i + 1) * delta_ell))
        in case fancy_index PSMap inds_in_bin of
             Inl e \<Rightarrow> Inl e
           | Inr vals \<Rightarrow>
               fill_spectra ell2d PSMap delta_ell N_bins (i + 1)
                 (ell_array', CL_array[i := np_mean vals])
      else Inr (ell_array, CL_array))"
  by pat_completeness auto
termination
  by (relation "measure (\<lambda>(ell2d, PSMap, delta_ell, N_bins, i, arrs). N_bins - i)") auto

text \<open>\<^verbatim>\<open>v * np.sqrt(pix_size /60.* np.pi/180.) * 2.\<close>, the scaling of the returned array.\<close>

definition scale_CL :: "real \<Rightarrow> npfloat \<Rightarrow> npfloat" where
  "scale_CL pix_size v = np_mul (np_mul v (np_sqrt (Fin (pix_size / 60 * pi / 180)))) (Fin 2)"

definition calculate_2d_spectrum ::
  "real array2 \<Rightarrow> real array2 \<Rightarrow> real \<Rightarrow> real \<Rightarrow> real \<Rightarrow> nat
     \<Rightarrow> error + (int list \<times> npfloat list)" where
  "calculate_2d_spectrum Map1 Map2 delta_ell ell_max pix_size N =
     (let ell2d = ell2d_grid pix_size N
      in if delta_ell = 0 then Inl ZeroDivisionError
         else
           let N_bins = py_int (ell_max / delta_ell)
           in if N_bins < 0 then Inl ValueError
              else
                let ell_array = map int [0..<nat N_bins];
                    CL_array = replicate (nat N_bins) (Fin 0)
                in case power_map Map1 Map2 of
                     Inl e \<Rightarrow> Inl e
                   | Inr PSMap \<Rightarrow>
                       (case fill_spectra ell2d PSMap delta_ell (nat N_bins) 0
                               (ell_array, CL_array) of
                          Inl e \<Rightarrow> Inl e
                        | Inr (ell_array', CL_array') \<Rightarrow>
                            Inr (ell_array', map (scale_CL pix_size) CL_array')))"

subsection \<open>What the claims speak of\<close>

text \<open>
  The index that \<open>fftshift\<close> reads at position \<open>i\<close> of an axis of length \<open>n\<close>; the
  wavenumber coordinate of column \<open>c\<close> and the multipole of pixel \<open>(r, c)\<close>; the pixels
  of a bin \<open>lo \<le> ell2d < hi\<close>; the mean of a function over a set of pixels, \<open>nan\<close> over
  no pixel; and the mean of the power map over bin \<open>i\<close>.
\<close>

definition shift_ix :: "nat \<Rightarrow> nat \<Rightarrow> nat" where
  "shift_ix n i = (n - n div 2 + i) mod n"

definition k_coord :: "real \<Rightarrow> nat \<Rightarrow> nat \<Rightarrow> npfloat" where
  "k_coord pix_size N c =
     np_div (np_mul (Fin 1) (np_div (Fin (real c + 0.5 - real N / 2)) (Fin (real N - 1))))
            (Fin (pix_size / 60 * pi / 180))"

definition ell_value :: "real \<Rightarrow> nat \<Rightarrow> nat \<Rightarrow> nat \<Rightarrow> npfloat" where
  "ell_value pix_size N r c =
     np_mul (np_sqrt (np_add (np_mul (k_coord pix_size N c) (k_coord pix_size N c))
                             (np_mul (k_coord pix_size N r) (k_coord pix_size N r))))
            (Fin (2 * pi))"

definition bin_pixels :: "npfloat array2 \<Rightarrow> nat \<Rightarrow> real \<Rightarrow> real \<Rightarrow> (nat \<times> nat) set" where
  "bin_pixels ell2d N lo hi =
     {(r, c). r < N \<and> c < N \<and> np_ge (ell2d ! r ! c) (Fin lo) \<and> np_lt (ell2d ! r ! c) (Fin hi)}"

definition mean_over :: "(nat \<times> nat) set \<Rightarrow> (nat \<times> nat \<Rightarrow> real) \<Rightarrow> npfloat" where
  "mean_over S f = (if S = {} then NaN else Fin ((\<Sum>p\<in>S. f p) / real (card S)))"

definition bin_mean :: "npfloat array2 \<Rightarrow> real array2 \<Rightarrow> nat \<Rightarrow> real \<Rightarrow> nat \<Rightarrow> npfloat" where
  "bin_mean ell2d PSMap N delta_ell i =
     mean_over (bin_pixels ell2d N (real i * delta_ell) ((real i + 1) * delta_ell))
               (\<lambda>(r, c). PSMap ! r ! c)"

text \<open>
  The cross-power grid in the words of claim C4: forward-transform each map
  (\<^verbatim>\<open>np.fft.fft2\<close>), multiply the conjugate of transform 1 by transform 2, take the real
  part.
\<close>

definition spec_cross_power :: "real array2 \<Rightarrow> real array2 \<Rightarrow> error + real array2" where
  "spec_cross_power Map1 Map2 =
     (case fft2 (map (map complex_of_real) Map1) of
        Inl e \<Rightarrow> Inl e
      | Inr T1 \<Rightarrow>
          (case fft2 (map (map complex_of_real) Map2) of
             Inl e \<Rightarrow> Inl e
           | Inr T2 \<Rightarrow> Inr (cross_power T1 T2)))"

text \<open>
  The phase \<open>exp (2 \<pi> i k p / n)\<close> of one axis, and the double sum of a transform of an
  \<open>n \<times> n\<close> grid given by its entries.
\<close>

definition phase :: "nat \<Rightarrow> nat \<Rightarrow> nat \<Rightarrow> complex" where
  "phase n k p = cis (2 * pi * (real k * real p / real n))"

definition dft_sum :: "nat \<Rightarrow> (nat \<Rightarrow> nat \<Rightarrow> complex) \<Rightarrow> nat \<Rightarrow> nat \<Rightarrow> complex" where
  "dft_sum n a k l = (\<Sum>p<n. \<Sum>q<n. a p q * (phase n k p * phase n l q))"

section \<open>The quadratic estimator (reconstruction notebook)\<close>

subsection \<open>The helpers of \<open>lens_modules\<close>\<close>

text \<open>
  The finite values of a grid of floats: \<open>None\<close> when an entry is \<open>inf\<close> or \<open>nan\<close>.
\<close>

fun fin_value :: "npfloat \<Rightarrow> real option" where
  "fin_value (Fin a) = Some a"
| "fin_value PInf = None"
| "fin_value MInf = None"
| "fin_value NaN = None"

definition finite_grid :: "npfloat array2 \<Rightarrow> real array2 option" where
  "finite_grid g = those (map (\<lambda>row. those (map fin_value row)) g)"

text \<open>
  Modelled from the spec: \<open>kmask\<close> of \<open>lens_modules\<close>, a module of the repository that
  is not among the source files. The spec (4.2): ``returns a copy of \<open>value_grid\<close> with
  every pixel whose \<open>modlmap\<close> value lies outside \<open>[ellmin, ellmax)\<close> set to zero'', with
  \<open>ellmax\<close> infinite when it is not given (\<open>None\<close> here).
\<close>

definition kmask :: "npfloat array2 \<Rightarrow> real array2 \<Rightarrow> real \<Rightarrow> real option \<Rightarrow> npfloat array2" where
  "kmask value_grid modlmap ellmin ellmax =
     map2 (map2 (\<lambda>v m. if ellmin \<le> m \<and> (case ellmax of None \<Rightarrow> True | Some hi \<Rightarrow> m < hi)
                         then v else Fin 0))
          value_grid modlmap"

text \<open>
  Modelled from the spec: \<open>filter_map\<close> and \<open>gradient\<close> of \<open>lens_modules\<close>, not among
  the source files. The spec (4.2, 4.3): \<open>filter_map\<close> forward-transforms the map with
  the 2D discrete transform, multiplies element-wise by the transfer function,
  inverse-transforms and returns the real part; \<open>gradient\<close> does the same with the
  multipliers \<open>i \<cdot> ly\<close> and \<open>i \<cdot> lx\<close> and returns the pair \<open>(grad_y, grad_x)\<close>.
  \<open>fwd_coeff\<close> is the forward transform of a real map at Fourier pixel \<open>(k, l)\<close>.
  The spec describes transfer functions of finite numbers only; for one with an \<open>inf\<close>
  or \<open>nan\<close> entry the result is a map of non-finite numbers, \<open>None\<close> here. All grids
  have the shape of the map.
\<close>

definition fwd_coeff :: "nat \<Rightarrow> real array2 \<Rightarrow> nat \<Rightarrow> nat \<Rightarrow> complex" where
  "fwd_coeff n m k l =
     (\<Sum>p<n. \<Sum>q<n. complex_of_real (m ! p ! q) * cnj (phase n k p * phase n l q))"

definition fourier_multiply :: "real array2 \<Rightarrow> complex array2 \<Rightarrow> real array2" where
  "fourier_multiply m t =
     (let n = length m
      in map (\<lambda>r. map (\<lambda>c.
             Re ((\<Sum>k<n. \<Sum>l<n. (fwd_coeff n m k l * t ! k ! l) * (phase n k r * phase n l c))
                 / (real n * real n))) [0..<n]) [0..<n])"

definition filter_map :: "real array2 \<Rightarrow> npfloat array2 \<Rightarrow> real array2 option" where
  "filter_map m transfer =
     map_option (\<lambda>t. fourier_multiply m (map (map complex_of_real) t)) (finite_grid transfer)"

definition gradient :: "real array2 \<Rightarrow> real array2 \<Rightarrow> real array2 \<Rightarrow> real array2 \<times> real array2" where
  "gradient m ly lx =
     (fourier_multiply m (map (map (\<lambda>v. \<i> * complex_of_real v)) ly),
      fourier_multiply m (map (map (\<lambda>v. \<i> * complex_of_real v)) lx))"

subsection \<open>\<open>qe_reconstruct\<close>\<close>

text \<open>
  \<^verbatim>\<open>
  def qe_reconstruct(tmap,unlensed_cmb_power_2d,total_cmb_power_2d,ellmin,ellmax,modlmap,ly,lx):
      inv_noise_filter = lm.kmask((1./total_cmb_power_2d),modlmap,ellmin,ellmax)
      grad_filter = lm.kmask((unlensed_cmb_power_2d/total_cmb_power_2d),modlmap,ellmin,ellmax)
      gradTy,gradTx = lm.gradient(tmap,ly,lx)
      filtered_gradTy = lm.filter_map(gradTy,grad_filter)
      filtered_gradTx = lm.filter_map(gradTx,grad_filter)
      filtered_T = lm.filter_map(tmap,inv_noise_filter)
      ############## COMPLETE THIS!!!
      # ADD A LINE BELOW TO GET recon_kappa = divergence(Grad(T_W) * T_IV), ...
      return -lm.filter_map(recon_kappa,lm.kmask(1/modlmap**2,modlmap,ellmin=2))
  \<close>
  The line that computes \<open>recon_kappa\<close> is left to the reader of the notebook: in the
  source the name is free in the function, so Python looks it up among the globals and
  raises NameError when it is not bound. The model takes the binding as its first
  argument (\<open>None\<close>: not bound, as in the notebook's own call). The functions of
  \<open>lens_modules\<close> are the collaborators of \<open>qe_reconstruct\<close>; the model returns, next to
  the outcome of the call, the calls it has made to them, in order and with their
  arguments. In the \<^verbatim>\<open>return\<close> line Python evaluates \<open>recon_kappa\<close> before it calls
  \<open>kmask\<close>, so an unbound name stops the function after the first six calls.
\<close>

datatype lm_call =
    KMask "npfloat array2" "real array2" real "real option"
  | Gradient "real array2" "real array2" "real array2"
  | FilterMap "real array2" "npfloat array2"

definition neg_grid :: "real array2 \<Rightarrow> real array2" where
  "neg_grid m = map (map uminus) m"

text \<open>\<^verbatim>\<open>1/modlmap**2\<close> and \<^verbatim>\<open>lm.kmask(1/modlmap**2,modlmap,ellmin=2)\<close>.\<close>

definition inverse_L2 :: "real array2 \<Rightarrow> npfloat array2" where
  "inverse_L2 modlmap = map (map (\<lambda>m. np_div (Fin 1) (np_mul (Fin m) (Fin m)))) modlmap"

definition flattening_filter :: "real array2 \<Rightarrow> npfloat array2" where
  "flattening_filter modlmap = kmask (inverse_L2 modlmap) modlmap 2 None"

definition qe_reconstruct ::
  "real array2 option \<Rightarrow> real array2 \<Rightarrow> real array2 \<Rightarrow> real array2 \<Rightarrow> real \<Rightarrow> real
     \<Rightarrow> real array2 \<Rightarrow> real array2 \<Rightarrow> real array2
     \<Rightarrow> (error + real array2 option) \<times> lm_call list" where
  "qe_reconstruct recon_kappa tmap unlensed_cmb_power_2d total_cmb_power_2d ellmin ellmax
       modlmap ly lx =
     (let inverse_power = map (map (\<lambda>t. np_div (Fin 1) (Fin t))) total_cmb_power_2d;
          inv_noise_filter = kmask inverse_power modlmap ellmin (Some ellmax);
          power_ratio = map2 (map2 (\<lambda>u t. np_div (Fin u) (Fin t)))
                          unlensed_cmb_power_2d total_cmb_power_2d;
          grad_filter = kmask power_ratio modlmap ellmin (Some ellmax);
          (gradTy, gradTx) = gradient tmap ly lx;
          filtered_gradTy = filter_map gradTy grad_filter;
          filtered_gradTx = filter_map gradTx grad_filter;
          filtered_T = filter_map tmap inv_noise_filter;
          calls = [KMask inverse_power modlmap ellmin (Some ellmax),
                   KMask power_ratio modlmap ellmin (Some ellmax),
                   Gradient tmap ly lx,
                   FilterMap gradTy grad_filter,
                   FilterMap gradTx grad_filter,
                   FilterMap tmap inv_noise_filter]
      in case recon_kappa of
           None \<Rightarrow> (Inl NameError, calls)
         | Some raw \<Rightarrow>
             (Inr (map_option neg_grid (filter_map raw (flattening_filter modlmap))),
              calls @ [KMask (inverse_L2 modlmap) modlmap 2 None,
                       FilterMap raw (flattening_filter modlmap)]))"

text \<open>
  The band \<open>(ellmin, ellmax)\<close> that a call of \<open>kmask\<close> limits its grid to; \<open>None\<close> for a
  call of another helper.
\<close>

fun band_of :: "lm_call \<Rightarrow> (real \<times> real option) option" where
  "band_of (KMask value_grid modlmap ellmin ellmax) = Some (ellmin, ellmax)"
| "band_of (Gradient m ly lx) = None"
| "band_of (FilterMap m transfer) = None"

text \<open>
  The flattening filter as a finite number: \<open>1 / L\<^sup>2\<close> at a Fourier pixel of multipole
  \<open>L \<ge> 2\<close>, zero below.
\<close>

definition flat_value :: "real \<Rightarrow> real" where
  "flat_value m = (if m < 2 then 0 else 1 / (m * m))"

section \<open>The arrays in a store\<close>

text \<open>
  Both notebooks pass numpy arrays by reference and \<open>calculate_2d_spectrum\<close> writes into
  arrays in place, so the claim that the inputs are left alone needs the arrays at
  addresses. A store is the list of the arrays allocated so far; the address of an array
  is its position; allocation appends. The numpy functions called
  (\<^verbatim>\<open>fftshift\<close>, \<^verbatim>\<open>ifft2\<close>, \<^verbatim>\<open>conj\<close>, \<^verbatim>\<open>real\<close>, \<^verbatim>\<open>outer\<close>, the arithmetic operators, indexing
  with index arrays) return new arrays and write to none, so the temporaries they make
  stay values; the arrays that are written in place or returned live in the store.
\<close>

datatype ndarray = IntArray "int list" | FloatArray "npfloat list" | FloatGrid "real array2"

type_synonym ref = nat

type_synonym store = "ndarray list"

definition alloc :: "ndarray \<Rightarrow> store \<Rightarrow> ref \<times> store" where
  "alloc v s = (length s, s @ [v])"

definition lookup :: "store \<Rightarrow> ref \<Rightarrow> ndarray option" where
  "lookup s a = (if a < length s then Some (s ! a) else None)"

definition store_write :: "ref \<Rightarrow> ndarray \<Rightarrow> store \<Rightarrow> store" where
  "store_write a v s = s[a := v]"

definition read_grid :: "store \<Rightarrow> ref \<Rightarrow> error + real array2" where
  "read_grid s a = (case lookup s a of Some (FloatGrid g) \<Rightarrow> Inr g | _ \<Rightarrow> Inl TypeError)"

definition read_ints :: "store \<Rightarrow> ref \<Rightarrow> error + int list" where
  "read_ints s a = (case lookup s a of Some (IntArray xs) \<Rightarrow> Inr xs | _ \<Rightarrow> Inl TypeError)"

definition read_floats :: "store \<Rightarrow> ref \<Rightarrow> error + npfloat list" where
  "read_floats s a = (case lookup s a of Some (FloatArray xs) \<Rightarrow> Inr xs | _ \<Rightarrow> Inl TypeError)"

text \<open>
  The body of the \<^verbatim>\<open>while\<close> loop of \<open>calculate_2d_spectrum\<close> on the store: the two
  assignments \<^verbatim>\<open>ell_array[i] = ...\<close> and \<^verbatim>\<open>CL_array[i] = ...\<close> write into the arrays at
  the addresses \<open>ell_array\<close> and \<open>CL_array\<close>.
\<close>

definition spectrum_step ::
  "npfloat array2 \<Rightarrow> real array2 \<Rightarrow> real \<Rightarrow> nat \<Rightarrow> ref \<Rightarrow> ref \<Rightarrow> store
     \<Rightarrow> error option \<times> store" where
  "spectrum_step ell2d PSMap delta_ell i ell_array CL_array s =
     (case read_ints s ell_array of
        Inl e \<Rightarrow> (Some e, s)
      | Inr ells \<Rightarrow>
          let s1 = store_write ell_array
                     (IntArray (ells[i := py_int ((real i + 0.5) * delta_ell)])) s;
              inds_in_bin =
                nonzero (bin_mask ell2d (real i * delta_ell) ((real i + 1) * delta_ell))
          in (case fancy_index PSMap inds_in_bin of
                Inl e \<Rightarrow> (Some e, s1)
              | Inr vals \<Rightarrow>
                  (case read_floats s1 CL_array of
                     Inl e \<Rightarrow> (Some e, s1)
                   | Inr CLs \<Rightarrow>
                       (None, store_write CL_array (FloatArray (CLs[i := np_mean vals])) s1))))"

function fill_spectra_st ::
  "npfloat array2 \<Rightarrow> real array2 \<Rightarrow> real \<Rightarrow> nat \<Rightarrow> nat \<Rightarrow> ref \<Rightarrow> ref \<Rightarrow> store
     \<Rightarrow> error option \<times> store" where
  "fill_spectra_st ell2d PSMap delta_ell N_bins i ell_array CL_array s =
     (if i < N_bins then
        (case spectrum_step ell2d PSMap delta_ell i ell_array CL_array s of
           (Some e, s1) \<Rightarrow> (Some e, s1)
         | (None, s1) \<Rightarrow>
             fill_spectra_st ell2d PSMap delta_ell N_bins (i + 1) ell_array CL_array s1)
      else (None, s))"
  by pat_completeness auto
termination
  by (relation "measure (\<lambda>(ell2d, PSMap, delta_ell, N_bins, i, rest). N_bins - i)") auto

text \<open>
  \<open>calculate_2d_spectrum\<close> on the store: \<open>Map1\<close> and \<open>Map2\<close> are addresses;
  \<^verbatim>\<open>np.arange\<close> and \<^verbatim>\<open>np.zeros\<close> allocate \<open>ell_array\<close> and \<open>CL_array\<close>; the product
  \<^verbatim>\<open>CL_array*np.sqrt(...)*2.\<close> is a new array; the addresses of \<open>ell_array\<close> and of that
  product are returned.
\<close>

definition calculate_2d_spectrum_st ::
  "ref \<Rightarrow> ref \<Rightarrow> real \<Rightarrow> real \<Rightarrow> real \<Rightarrow> nat \<Rightarrow> store \<Rightarrow> (error + ref \<times> ref) \<times> store" where
  "calculate_2d_spectrum_st Map1 Map2 delta_ell ell_max pix_size N s =
     (let ell2d = ell2d_grid pix_size N
      in if delta_ell = 0 then (Inl ZeroDivisionError, s)
         else
           let N_bins = py_int (ell_max / delta_ell);
               (ell_array, s1) = alloc (IntArray (map int [0..<nat N_bins])) s
           in if N_bins < 0 then (Inl ValueError, s1)
              else
                let (CL_array, s2) = alloc (FloatArray (replicate (nat N_bins) (Fin 0))) s1
                in (case read_grid s2 Map1 of
                      Inl e \<Rightarrow> (Inl e, s2)
                    | Inr M1 \<Rightarrow>
                  (case read_grid s2 Map2 of
                      Inl e \<Rightarrow> (Inl e, s2)
                    | Inr M2 \<Rightarrow>
                  (case power_map M1 M2 of
                      Inl e \<Rightarrow> (Inl e, s2)
                    | Inr PSMap \<Rightarrow>
                  (case fill_spectra_st ell2d PSMap delta_ell (nat N_bins) 0
                          ell_array CL_array s2 of
                      (Some e, s3) \<Rightarrow> (Inl e, s3)
                    | (None, s3) \<Rightarrow>
                  (case read_floats s3 CL_array of
                      Inl e \<Rightarrow> (Inl e, s3)
                    | Inr CLs \<Rightarrow>
                        let (result, s4) = alloc (FloatArray (map (scale_CL pix_size) CLs)) s3
                        in (Inr (ell_array, result), s4)))))))"

text \<open>
  \<^verbatim>\<open>
  def lens_map(input_map,kappa,modlmap,ly,lx,N,pix_size):
      phi = kappa_to_phi(kappa,modlmap,return_fphi=True)
      grad_phi = gradient(phi,ly,lx)
      deflected_pos = posmap(N,pix_size) + grad_phi
      deflected_pix = sky2pix(deflected_pos,N,pix_size)
      output_map = np.empty(input_map.shape, dtype=input_map.dtype)
      from scipy.ndimage import map_coordinates
      map_coordinates(input_map, deflected_pix, output_map, order=5, mode='wrap')
      return output_map
  \<close>
  \<open>kappa_to_phi\<close>, \<open>gradient\<close>, \<open>posmap\<close> and \<open>sky2pix\<close> are functions of \<open>lens_modules\<close>,
  which is not among the source files; they are parameters here, functions of the values
  of their arguments that return new values (the spec, section 3: every operation
  returns a new map). scipy's \<open>map_coordinates\<close> is a parameter too: the values it
  computes from its first two arguments; it places them in the array given as its third
  argument and writes nowhere else. \<^verbatim>\<open>np.empty\<close> allocates an array of the shape of
  \<open>input_map\<close> with arbitrary contents (zeros here), which \<open>map_coordinates\<close> overwrites.
\<close>

record ('phi, 'vec, 'pix) lens_helpers =
  kappa_to_phi :: "real array2 \<Rightarrow> real array2 \<Rightarrow> 'phi"
  gradient_of :: "'phi \<Rightarrow> real array2 \<Rightarrow> real array2 \<Rightarrow> 'vec"
  posmap :: "nat \<Rightarrow> real \<Rightarrow> 'vec"
  add_vec :: "'vec \<Rightarrow> 'vec \<Rightarrow> 'vec"
  sky2pix :: "'vec \<Rightarrow> nat \<Rightarrow> real \<Rightarrow> 'pix"
  map_coordinates :: "real array2 \<Rightarrow> 'pix \<Rightarrow> real array2"

definition lens_map_st ::
  "('phi, 'vec, 'pix) lens_helpers \<Rightarrow> ref \<Rightarrow> ref \<Rightarrow> ref \<Rightarrow> ref \<Rightarrow> ref \<Rightarrow> nat \<Rightarrow> real \<Rightarrow> store
     \<Rightarrow> (error + ref) \<times> store" where
  "lens_map_st H input_map kappa modlmap ly lx N pix_size s =
     (case read_grid s kappa of Inl e \<Rightarrow> (Inl e, s) | Inr kappa' \<Rightarrow>
     (case read_grid s modlmap of Inl e \<Rightarrow> (Inl e, s) | Inr modlmap' \<Rightarrow>
     (case read_grid s ly of Inl e \<Rightarrow> (Inl e, s) | Inr ly' \<Rightarrow>
     (case read_grid s lx of Inl e \<Rightarrow> (Inl e, s) | Inr lx' \<Rightarrow>
        let phi = kappa_to_phi H kappa' modlmap';
            grad_phi = gradient_of H phi ly' lx';
            deflected_pos = add_vec H (posmap H N pix_size) grad_phi;
            deflected_pix = sky2pix H deflected_pos N pix_size
        in (case read_grid s input_map of Inl e \<Rightarrow> (Inl e, s) | Inr input_map' \<Rightarrow>
              let (output_map, s1) = alloc (FloatGrid (map (map (\<lambda>_. 0)) input_map')) s;
                  s2 = store_write output_map
                         (FloatGrid (map_coordinates H input_map' deflected_pix)) s1
              in (Inr output_map, s2))))))"

text \<open>
  \<open>frame s s'\<close>: every array of the store \<open>s\<close> is still there in \<open>s'\<close>, at its address
  and unchanged. \<open>identity_lens\<close> is a set of helpers for a concrete run.
\<close>

definition frame :: "store \<Rightarrow> store \<Rightarrow> bool" where
  "frame s s' \<longleftrightarrow> length s \<le> length s' \<and> (\<forall>a<length s. s' ! a = s ! a)"

definition identity_lens :: "(unit, unit, unit) lens_helpers" where
  "identity_lens = \<lparr> kappa_to_phi = (\<lambda>kappa modlmap. ()), gradient_of = (\<lambda>phi ly lx. ()),
       posmap = (\<lambda>N pix_size. ()), add_vec = (\<lambda>a b. ()), sky2pix = (\<lambda>pos N pix_size. ()),
       map_coordinates = (\<lambda>input_map pix. input_map) \<rparr>"

section \<open>The Gaussian beam (reconstruction notebook)\<close>

text \<open>
  \<^verbatim>\<open>
  def gauss_beam(ell,fwhm):
      tht_fwhm = np.deg2rad(fwhm / 60.)
      return np.exp(-(tht_fwhm**2.)*(ell**2.) / (16.*np.log(2.)))
  \<close>
  The beam is evaluated in exact real arithmetic: \<open>exp\<close> of a real number.
\<close>

definition deg2rad :: "real \<Rightarrow> real" where
  "deg2rad d = d * (pi / 180)"

definition gauss_beam :: "real \<Rightarrow> real \<Rightarrow> real" where
  "gauss_beam ell fwhm =
     (let tht_fwhm = deg2rad (fwhm / 60)
      in exp (- (tht_fwhm ^ 2) * (ell ^ 2) / (16 * ln 2)))"

section \<open>Grids, shifts and transforms\<close>

lemma is_gridD: "is_grid N a \<Longrightarrow> r < N \<Longrightarrow> length (a ! r) = N"
  by (simp add: is_grid_def)

lemma is_grid_length: "is_grid N a \<Longrightarrow> length a = N"
  by (simp add: is_grid_def)

lemma is_gridI: "length a = N \<Longrightarrow> (\<And>r. r < N \<Longrightarrow> length (a ! r) = N) \<Longrightarrow> is_grid N a"
  by (auto simp: is_grid_def in_set_conv_nth)

lemma is_grid_map: "is_grid N a \<Longrightarrow> is_grid N (map (map f) a)"
  by (simp add: is_grid_def)

lemma is_grid_ncols: "is_grid N a \<Longrightarrow> ncols a = N"
  by (cases a) (auto simp: is_grid_def ncols_def)

lemma roll_nth:
  assumes "i < length xs" "s < length xs"
  shows "roll s xs ! i = xs ! ((length xs - s + i) mod length xs)"
  using assms by (simp add: roll_def nth_rotate)

lemma length_roll: "length (roll s xs) = length xs"
  by (simp add: roll_def)

lemma length_fftshift1: "length (fftshift1 xs) = length xs"
  by (simp add: fftshift1_def length_roll)

lemma fftshift1_nth: "i < length xs \<Longrightarrow> fftshift1 xs ! i = xs ! shift_ix (length xs) i"
  by (simp add: fftshift1_def roll_nth shift_ix_def)

lemma shift_ix_less: "0 < n \<Longrightarrow> shift_ix n i < n"
  by (simp add: shift_ix_def)

lemma is_grid_fftshift: "is_grid N a \<Longrightarrow> is_grid N (fftshift a)"
  by (rule is_gridI)
     (auto simp: fftshift_def length_fftshift1 fftshift1_nth is_grid_def shift_ix_less)

lemma fftshift_nth:
  assumes "is_grid N a" "r < N" "c < N"
  shows "fftshift a ! r ! c = a ! shift_ix N r ! shift_ix N c"
  using assms
  by (simp add: fftshift_def fftshift1_nth length_fftshift1 is_grid_def shift_ix_less)

lemma ifft2_grid:
  assumes "is_grid N a" "0 < N"
  shows "\<exists>F. ifft2 a = Inr F \<and> is_grid N F
       \<and> (\<forall>k<N. \<forall>l<N. F ! k ! l =
            (\<Sum>p<N. \<Sum>q<N. a ! p ! q *
                cis (2 * pi * (real k * real p / real N + real l * real q / real N)))
            / (real N * real N))"
  using assms
  by (auto simp: ifft2_def Let_def is_grid_ncols is_grid_length intro!: is_gridI)

lemma cross_power_grid:
  assumes "is_grid N F1" "is_grid N F2"
  shows "is_grid N (cross_power F1 F2)"
  using assms by (intro is_gridI) (simp_all add: cross_power_def is_grid_length is_gridD)

lemma cross_power_nth:
  assumes "is_grid N F1" "is_grid N F2" "r < N" "c < N"
  shows "cross_power F1 F2 ! r ! c = Re (cnj (F1 ! r ! c) * (F2 ! r ! c))"
  using assms by (simp add: cross_power_def is_grid_length is_gridD)

lemma map2_swap: "map2 f xs ys = map2 (\<lambda>y x. f x y) ys xs"
  by (induction xs ys rule: list_induct2') simp_all

lemma re_cnj_mult_commute: "Re (cnj x * y) = Re (cnj y * x)"
  by (simp add: mult.commute)

lemma cross_power_commute: "cross_power F1 F2 = cross_power F2 F1"
proof -
  have "cross_power F1 F2 = map2 (\<lambda>b a. map2 (\<lambda>x y. Re (cnj x * y)) a b) F2 F1"
    unfolding cross_power_def by (rule map2_swap)
  also have "(\<lambda>b a. map2 (\<lambda>x y. Re (cnj x * y)) a b)
           = (\<lambda>b a. map2 (\<lambda>y x. Re (cnj x * y)) b a)"
    by (intro ext) (rule map2_swap)
  also have "(\<lambda>(y::complex) x. Re (cnj x * y)) = (\<lambda>y x. Re (cnj y * x))"
    by (intro ext) (rule re_cnj_mult_commute)
  finally show ?thesis
    by (simp only: cross_power_def)
qed

lemma ifft2_error: "ifft2 a = Inl e \<Longrightarrow> e = ValueError"
  by (auto simp: ifft2_def Let_def split: if_splits)

lemma power_map_commute: "power_map A B = power_map B A"
  by (auto simp: power_map_def cross_power_commute split: sum.splits dest: ifft2_error)

lemma power_map_grid:
  assumes "is_grid N A" "is_grid N B" "0 < N"
  shows "\<exists>P. power_map A B = Inr P \<and> is_grid N P"
proof -
  from ifft2_grid[OF is_grid_fftshift[OF is_grid_map[OF assms(1)]] assms(3)]
  obtain F1 where F1: "ifft2 (fftshift (map (map complex_of_real) A)) = Inr F1" "is_grid N F1"
    by blast
  from ifft2_grid[OF is_grid_fftshift[OF is_grid_map[OF assms(2)]] assms(3)]
  obtain F2 where F2: "ifft2 (fftshift (map (map complex_of_real) B)) = Inr F2" "is_grid N F2"
    by blast
  show ?thesis
    using F1 F2 by (simp add: power_map_def is_grid_fftshift cross_power_grid)
qed

section \<open>The multipole grid and the bins\<close>

lemma ell2d_grid_eq:
  "ell2d_grid pix_size N = map (\<lambda>r. map (\<lambda>c. ell_value pix_size N r c) [0..<N]) [0..<N]"
proof (cases "N = 0")
  case True
  then show ?thesis by (simp add: ell2d_grid_def outer_def)
next
  case False
  define kX where "kX = map (map (\<lambda>v. np_div v (Fin (pix_size / 60 * pi / 180))))
      (outer (replicate N (Fin 1))
         (map (\<lambda>k. np_div (Fin (real k + 0.5 - real N / 2)) (Fin (real N - 1))) [0..<N]))"
  have kX: "kX = map (\<lambda>r. map (\<lambda>c. k_coord pix_size N c) [0..<N]) [0..<N]"
    by (rule nth_equalityI)
       (simp_all add: kX_def outer_def k_coord_def comp_def del: np_div.simps np_mul.simps)
  have kY: "transpose kX = map (\<lambda>r. map (\<lambda>c. k_coord pix_size N r) [0..<N]) [0..<N]"
    by (subst transpose_rectangle[where n = N]) (use False in \<open>auto simp: kX\<close>)
  have "ell2d_grid pix_size N
      = map (map (\<lambda>v. np_mul v (Fin (2 * pi))))
          (map2 (map2 (\<lambda>x y. np_sqrt (np_add (np_mul x x) (np_mul y y)))) kX (transpose kX))"
    by (simp add: ell2d_grid_def Let_def kX_def)
  also have "\<dots> = map (\<lambda>r. map (\<lambda>c. ell_value pix_size N r c) [0..<N]) [0..<N]"
    unfolding kY unfolding kX
    by (auto simp: ell_value_def simp del: np_div.simps np_mul.simps np_add.simps np_sqrt.simps
             intro!: nth_equalityI)
  finally show ?thesis .
qed

lemma ell2d_grid_is_grid: "is_grid N (ell2d_grid pix_size N)"
  by (simp add: ell2d_grid_eq is_grid_def)

lemma ell2d_grid_nth:
  "r < N \<Longrightarrow> c < N \<Longrightarrow> ell2d_grid pix_size N ! r ! c = ell_value pix_size N r c"
  by (simp add: ell2d_grid_eq)

lemma bin_mask_grid: "is_grid N ell2d \<Longrightarrow> is_grid N (bin_mask ell2d lo hi)"
  by (intro is_gridI) (simp_all add: bin_mask_def is_grid_length is_gridD)

lemma bin_mask_nth:
  assumes "is_grid N ell2d" "r < N" "c < N"
  shows "bin_mask ell2d lo hi ! r ! c
       = (np_ge (ell2d ! r ! c) (Fin lo) \<and> np_lt (ell2d ! r ! c) (Fin hi))"
  using assms by (simp add: bin_mask_def is_grid_length is_gridD)

lemma nonzero_grid:
  assumes "is_grid N b"
  shows "nonzero b = concat (map (\<lambda>r. map (\<lambda>c. (r, c)) (filter (\<lambda>c. b ! r ! c) [0..<N])) [0..<N])"
proof -
  have "map (\<lambda>r. map (\<lambda>c. (r, c)) (filter (\<lambda>c. b ! r ! c) [0..<length (b ! r)])) [0..<N]
      = map (\<lambda>r. map (\<lambda>c. (r, c)) (filter (\<lambda>c. b ! r ! c) [0..<N])) [0..<N]"
    by (rule map_cong) (simp_all add: is_gridD[OF assms])
  then show ?thesis
    unfolding nonzero_def is_grid_length[OF assms] by (rule arg_cong[where f = concat])
qed

lemma distinct_rows:
  "distinct (concat (map (\<lambda>r. map (\<lambda>c. (r, c)) (filter (P r) [0..<m])) [0..<n]))"
  by (induction n) (auto simp: distinct_map inj_on_def)

lemma set_rows:
  "set (concat (map (\<lambda>r. map (\<lambda>c. (r, c)) (filter (P r) [0..<m])) [0..<n]))
     = {(r, c). r < n \<and> c < m \<and> P r c}"
  by auto

lemma nonzero_set:
  assumes "is_grid N b"
  shows "set (nonzero b) = {(r, c). r < N \<and> c < N \<and> b ! r ! c}"
  unfolding nonzero_grid[OF assms] by (rule set_rows)

lemma nonzero_distinct: "is_grid N b \<Longrightarrow> distinct (nonzero b)"
  by (simp only: nonzero_grid distinct_rows)

lemma nonzero_bin_mask:
  assumes "is_grid N ell2d"
  shows "set (nonzero (bin_mask ell2d lo hi)) = bin_pixels ell2d N lo hi"
  unfolding nonzero_set[OF bin_mask_grid[OF assms]] bin_pixels_def
  using assms by (auto simp: bin_mask_nth)

lemma in_bin_finite:
  assumes "np_ge v (Fin lo)" "np_lt v (Fin hi)"
  shows "\<exists>e. v = Fin e \<and> lo \<le> e \<and> e < hi"
  using assms by (cases v) auto

lemma bins_disjoint:
  assumes "i \<noteq> j"
  shows "bin_pixels ell2d N (real i * d) ((real i + 1) * d)
       \<inter> bin_pixels ell2d N (real j * d) ((real j + 1) * d) = {}"
proof -
  have no: False
    if "a < b" "real a * d \<le> e" "e < (real a + 1) * d" "real b * d \<le> e" "e < (real b + 1) * d"
    for a b :: nat and e :: real
  proof -
    have dpos: "0 < d"
      using that(2,3) by (simp add: distrib_right)
    have "real a + 1 \<le> real b"
      using that(1) by linarith
    then have "(real a + 1) * d \<le> real b * d"
      using dpos by (simp add: mult_right_mono)
    with that(3,4) show False by simp
  qed
  show ?thesis
  proof (rule ccontr)
    assume "\<not> ?thesis"
    then obtain r c where "(r, c) \<in> bin_pixels ell2d N (real i * d) ((real i + 1) * d)"
        "(r, c) \<in> bin_pixels ell2d N (real j * d) ((real j + 1) * d)"
      by auto
    then obtain e e' where "ell2d ! r ! c = Fin e" "real i * d \<le> e" "e < (real i + 1) * d"
        "ell2d ! r ! c = Fin e'" "real j * d \<le> e'" "e' < (real j + 1) * d"
      unfolding bin_pixels_def using in_bin_finite by (metis (no_types, lifting) mem_Collect_eq prod.case)
    then have "real i * d \<le> e" "e < (real i + 1) * d" "real j * d \<le> e" "e < (real j + 1) * d"
      by simp_all
    with no[of i j e] no[of j i e] assms show False
      by (cases "i < j") auto
  qed
qed

lemma fancy_index_ok:
  assumes "is_grid N P" "set idx \<subseteq> {..<N} \<times> {..<N}"
  shows "fancy_index P idx = Inr (map (\<lambda>(r, c). P ! r ! c) idx)"
proof -
  have "\<forall>(r, c) \<in> set idx. r < length P \<and> c < length (P ! r)"
    using assms by (auto simp: is_grid_length is_gridD)
  then show ?thesis by (simp add: fancy_index_def)
qed

lemma np_mean_distinct:
  assumes "distinct idx"
  shows "np_mean (map f idx) = mean_over (set idx) f"
  using assms
  by (simp add: np_mean_def mean_over_def sum_list_distinct_conv_sum_set distinct_card)

lemma bin_step:
  assumes "is_grid N ell2d" "is_grid N P"
  shows "fancy_index P (nonzero (bin_mask ell2d (real i * d) ((real i + 1) * d)))
           = Inr (map (\<lambda>(r, c). P ! r ! c) (nonzero (bin_mask ell2d (real i * d) ((real i + 1) * d))))
       \<and> np_mean (map (\<lambda>(r, c). P ! r ! c) (nonzero (bin_mask ell2d (real i * d) ((real i + 1) * d))))
           = bin_mean ell2d P N d i"
proof -
  let ?idx = "nonzero (bin_mask ell2d (real i * d) ((real i + 1) * d))"
  have s: "set ?idx = bin_pixels ell2d N (real i * d) ((real i + 1) * d)"
    by (rule nonzero_bin_mask[OF assms(1)])
  have sub: "set ?idx \<subseteq> {..<N} \<times> {..<N}"
    unfolding s by (auto simp: bin_pixels_def)
  have d: "distinct ?idx"
    by (rule nonzero_distinct[OF bin_mask_grid[OF assms(1)]])
  show ?thesis
    using fancy_index_ok[OF assms(2) sub] np_mean_distinct[OF d] s
    by (simp add: bin_mean_def)
qed

lemma fill_spectra_closed:
  assumes "is_grid N ell2d" "is_grid N P" "length ell = nb" "length CL = nb" "i \<le> nb"
  shows "fill_spectra ell2d P d nb i (ell, CL)
       = Inr (take i ell @ map (\<lambda>j. py_int ((real j + 0.5) * d)) [i..<nb],
              take i CL @ map (\<lambda>j. bin_mean ell2d P N d j) [i..<nb])"
  using assms(3-5)
proof (induction "nb - i" arbitrary: i ell CL)
  case 0
  then show ?case by simp
next
  case (Suc k)
  then have lt: "i < nb" by simp
  note step = bin_step[OF assms(1,2), of i d]
  have "fill_spectra ell2d P d nb i (ell, CL)
      = fill_spectra ell2d P d nb (i + 1)
          (ell[i := py_int ((real i + 0.5) * d)], CL[i := bin_mean ell2d P N d i])"
    using lt step by (subst fill_spectra.simps) (simp add: Let_def)
  also have "\<dots> = Inr (take (i + 1) (ell[i := py_int ((real i + 0.5) * d)])
                          @ map (\<lambda>j. py_int ((real j + 0.5) * d)) [i + 1..<nb],
                        take (i + 1) (CL[i := bin_mean ell2d P N d i])
                          @ map (\<lambda>j. bin_mean ell2d P N d j) [i + 1..<nb])"
    using Suc.prems Suc.hyps(2) lt by (intro Suc.hyps(1)) simp_all
  also have "\<dots> = Inr (take i ell @ map (\<lambda>j. py_int ((real j + 0.5) * d)) [i..<nb],
                        take i CL @ map (\<lambda>j. bin_mean ell2d P N d j) [i..<nb])"
    using lt Suc.prems
    by (simp add: take_Suc_conv_app_nth upt_conv_Cons)
  finally show ?case .
qed

section \<open>What \<open>calculate_2d_spectrum\<close> returns\<close>

lemma py_int_nat_floor: "0 \<le> py_int x \<Longrightarrow> nat (py_int x) = nat \<lfloor>x\<rfloor>"
proof (cases "0 \<le> x")
  case True
  then show ?thesis by (simp add: py_int_def)
next
  case False
  assume "0 \<le> py_int x"
  with False have "0 \<le> \<lceil>x\<rceil>" by (simp add: py_int_def)
  moreover from False have "\<lceil>x\<rceil> \<le> 0" by (simp add: ceiling_le_iff)
  moreover from False have "\<lfloor>x\<rfloor> \<le> 0" by (simp add: floor_le_iff)
  ultimately show ?thesis using False by (simp add: py_int_def)
qed

lemma calculate_2d_spectrum_value:
  assumes "is_grid N Map1" "is_grid N Map2" "0 < N"
    and "delta_ell \<noteq> 0" "0 \<le> py_int (ell_max / delta_ell)"
  shows "\<exists>P. power_map Map1 Map2 = Inr P \<and> is_grid N P \<and>
           calculate_2d_spectrum Map1 Map2 delta_ell ell_max pix_size N
             = Inr (map (\<lambda>j. py_int ((real j + 0.5) * delta_ell))
                        [0..<nat (py_int (ell_max / delta_ell))],
                    map (\<lambda>j. scale_CL pix_size
                                 (bin_mean (ell2d_grid pix_size N) P N delta_ell j))
                        [0..<nat (py_int (ell_max / delta_ell))])"
proof -
  obtain P where P: "power_map Map1 Map2 = Inr P" "is_grid N P"
    using power_map_grid[OF assms(1-3)] by blast
  have "fill_spectra (ell2d_grid pix_size N) P delta_ell (nat (py_int (ell_max / delta_ell))) 0
          (map int [0..<nat (py_int (ell_max / delta_ell))],
           replicate (nat (py_int (ell_max / delta_ell))) (Fin 0))
      = Inr (map (\<lambda>j. py_int ((real j + 0.5) * delta_ell))
                 [0..<nat (py_int (ell_max / delta_ell))],
             map (\<lambda>j. bin_mean (ell2d_grid pix_size N) P N delta_ell j)
                 [0..<nat (py_int (ell_max / delta_ell))])"
    by (subst fill_spectra_closed[OF ell2d_grid_is_grid P(2)]) simp_all
  then show ?thesis
    using P assms(4,5) by (simp add: calculate_2d_spectrum_def Let_def comp_def)
qed


section \<open>Properties of the binned spectrum\<close>

lemma sqrt2_scale: "sqrt (1 / (2 * (pi * pi))) * (2 * pi) = sqrt 2"
proof -
  have "sqrt (1 / (2 * (pi * pi))) = 1 / (sqrt 2 * pi)"
    by (simp add: real_sqrt_divide real_sqrt_mult)
  then have "sqrt (1 / (2 * (pi * pi))) * (2 * pi) = 2 / sqrt 2"
    by simp
  also have "\<dots> = sqrt 2"
    by (simp add: real_div_sqrt)
  finally show ?thesis .
qed

lemma ell_value_2_pos: "r < 2 \<Longrightarrow> c < 2 \<Longrightarrow> ell_value 10800 2 r c = Fin (sqrt 2)"
proof -
  assume "r < 2" "c < 2"
  then have "r = 0 \<or> r = 1" "c = 0 \<or> c = 1" by auto
  then show ?thesis
    using sqrt2_scale by (auto simp: ell_value_def k_coord_def)
qed

lemma ell_value_2_neg: "r < 2 \<Longrightarrow> c < 2 \<Longrightarrow> ell_value (- 10800) 2 r c = Fin (sqrt 2)"
proof -
  assume "r < 2" "c < 2"
  then have "r = 0 \<or> r = 1" "c = 0 \<or> c = 1" by auto
  then show ?thesis
    using sqrt2_scale by (auto simp: ell_value_def k_coord_def)
qed

lemma sqrt2_less_2: "sqrt 2 < 2"
  by (rule real_less_lsqrt) simp_all

lemma grid_2x2: "is_grid 2 [[a, b], [c, d]]"
  by (simp add: is_grid_def)

lemma power_map_unit:
  "power_map [[1, 0], [0, 0]] [[1, 0], [0, 0]] = Inr [[1 / 16, 1 / 16], [1 / 16, 1 / 16]]"
  by (simp add: power_map_def ifft2_def fftshift_def fftshift1_def roll_def ncols_def Let_def
      lessThan_Suc numeral_2_eq_2 cross_power_def)

lemma bin_pixels_2_all:
  assumes "p = 10800 \<or> p = - 10800" "lo \<le> sqrt 2" "sqrt 2 < hi"
  shows "bin_pixels (ell2d_grid p 2) 2 lo hi = {..<2} \<times> {..<2}"
  using assms by (auto simp: bin_pixels_def ell2d_grid_nth ell_value_2_pos ell_value_2_neg)

lemma bin_pixels_2_none:
  assumes "p = 10800 \<or> p = - 10800" "hi \<le> sqrt 2"
  shows "bin_pixels (ell2d_grid p 2) 2 lo hi = {}"
  using assms by (auto simp: bin_pixels_def ell2d_grid_nth ell_value_2_pos ell_value_2_neg)

lemma mean_over_const:
  assumes "finite S" "S \<noteq> {}" "\<And>p. p \<in> S \<Longrightarrow> f p = v"
  shows "mean_over S f = Fin v"
proof -
  have "(\<Sum>p\<in>S. f p) = real (card S) * v"
    using assms(3) by simp
  moreover have "card S \<noteq> 0"
    using assms(1,2) by simp
  ultimately show ?thesis
    using assms(2) by (simp add: mean_over_def)
qed

lemma scale_CL_nan [simp]: "scale_CL pix_size NaN = NaN"
  by (simp add: scale_CL_def)

lemma scale_CL_fin:
  "0 \<le> pix_size \<Longrightarrow> scale_CL pix_size (Fin m) = Fin (m * sqrt (pix_size / 60 * pi / 180) * 2)"
  by (simp add: scale_CL_def not_less)

text \<open>
  Claim C1. For all real \<open>N \<times> N\<close> maps \<open>A\<close> and \<open>B\<close> and all parameters, the call with
  \<open>(A, B)\<close> and the call with \<open>(B, A)\<close> give the same result: the same exception, or the
  same pair \<open>(ell_array, CL_array)\<close>, entry for entry (\<open>nan\<close> at the same bins).
\<close>

theorem spectrum_symmetric:
  assumes "is_grid N A" "is_grid N B"
  shows "calculate_2d_spectrum A B delta_ell ell_max pix_size N
       = calculate_2d_spectrum B A delta_ell ell_max pix_size N"
  unfolding calculate_2d_spectrum_def by (subst power_map_commute) (rule refl)

theorem spectrum_symmetric_witness:
  "is_grid 2 [[1, 0], [0, 0::real]] \<and> is_grid 2 [[0, 2], [3, 0::real]]
   \<and> calculate_2d_spectrum [[1, 0], [0, 0]] [[0, 2], [3, 0]] 1 2 10800 2
     = calculate_2d_spectrum [[0, 2], [3, 0]] [[1, 0], [0, 0]] 1 2 10800 2"
  using spectrum_symmetric [of 2 "[[1, 0], [0, 0]]" "[[0, 2], [3, 0]]" 1 2 10800]
  by (simp add: grid_2x2)

text \<open>
  Claim C5. Whenever the call returns (non-empty \<open>N \<times> N\<close> maps, \<open>delta_ell \<noteq> 0\<close>,
  \<open>int(ell_max/delta_ell) \<ge> 0\<close>), both returned arrays have exactly
  \<open>floor (ell_max / delta_ell)\<close> entries, and entry \<open>i\<close> of \<open>CL_array\<close> is the mean of the
  cross-power map over exactly the pixels with \<open>i \<cdot> delta_ell \<le> ell2d < (i + 1) \<cdot> delta_ell\<close>
  (\<open>nan\<close> when there is none), times \<open>sqrt (pix_size / 60 \<cdot> \<pi> / 180)\<close>, times 2: a factor
  that depends on \<open>pix_size\<close> alone. No pixel lies in two bins.
\<close>

theorem spectrum_bins_are_means:
  assumes "is_grid N Map1" "is_grid N Map2" "0 < N"
    and "delta_ell \<noteq> 0" "0 \<le> py_int (ell_max / delta_ell)"
  shows "(\<exists>PSMap ell_array CL_array.
           power_map Map1 Map2 = Inr PSMap \<and>
           calculate_2d_spectrum Map1 Map2 delta_ell ell_max pix_size N
             = Inr (ell_array, CL_array) \<and>
           length ell_array = nat \<lfloor>ell_max / delta_ell\<rfloor> \<and>
           length CL_array = nat \<lfloor>ell_max / delta_ell\<rfloor> \<and>
           (\<forall>i < nat \<lfloor>ell_max / delta_ell\<rfloor>.
              CL_array ! i =
                np_mul (np_mul
                  (mean_over (bin_pixels (ell2d_grid pix_size N) N
                                (real i * delta_ell) ((real i + 1) * delta_ell))
                             (\<lambda>(r, c). PSMap ! r ! c))
                  (np_sqrt (Fin (pix_size / 60 * pi / 180)))) (Fin 2)))
       \<and> (\<forall>i j. i \<noteq> j \<longrightarrow>
              bin_pixels (ell2d_grid pix_size N) N (real i * delta_ell) ((real i + 1) * delta_ell)
            \<inter> bin_pixels (ell2d_grid pix_size N) N (real j * delta_ell) ((real j + 1) * delta_ell)
            = {})"
proof -
  obtain P where P: "power_map Map1 Map2 = Inr P"
    and val: "calculate_2d_spectrum Map1 Map2 delta_ell ell_max pix_size N
             = Inr (map (\<lambda>j. py_int ((real j + 0.5) * delta_ell))
                        [0..<nat (py_int (ell_max / delta_ell))],
                    map (\<lambda>j. scale_CL pix_size
                                 (bin_mean (ell2d_grid pix_size N) P N delta_ell j))
                        [0..<nat (py_int (ell_max / delta_ell))])"
    using calculate_2d_spectrum_value[OF assms] by blast
  have nb: "nat (py_int (ell_max / delta_ell)) = nat \<lfloor>ell_max / delta_ell\<rfloor>"
    by (rule py_int_nat_floor[OF assms(5)])
  show ?thesis
    using P val bins_disjoint unfolding nb by (simp add: scale_CL_def bin_mean_def)
qed

theorem spectrum_bins_are_means_witness:
  "is_grid 2 [[1, 0], [0, 0::real]] \<and> (0::nat) < 2 \<and> (1::real) \<noteq> 0 \<and> 0 \<le> py_int (2 / 1)
   \<and> (\<exists>PSMap ell_array CL_array.
           power_map [[1, 0], [0, 0]] [[1, 0], [0, 0]] = Inr PSMap \<and>
           calculate_2d_spectrum [[1, 0], [0, 0]] [[1, 0], [0, 0]] 1 2 10800 2
             = Inr (ell_array, CL_array) \<and>
           length ell_array = nat \<lfloor>2 / (1::real)\<rfloor> \<and>
           length CL_array = nat \<lfloor>2 / (1::real)\<rfloor> \<and>
           (\<forall>i < nat \<lfloor>2 / (1::real)\<rfloor>.
              CL_array ! i =
                np_mul (np_mul
                  (mean_over (bin_pixels (ell2d_grid 10800 2) 2 (real i * 1) ((real i + 1) * 1))
                             (\<lambda>(r, c). PSMap ! r ! c))
                  (np_sqrt (Fin (10800 / 60 * pi / 180)))) (Fin 2)))"
proof -
  have h: "0 \<le> py_int (2 / 1)" by (simp add: py_int_def)
  show ?thesis
    using spectrum_bins_are_means [OF grid_2x2 grid_2x2 _ _ h, of 1 0 0 0 1 0 0 0 10800,
        THEN conjunct1] h
    by (simp add: grid_2x2)
qed

text \<open>
  Claim C6. If bin \<open>i\<close> holds no pixel, the call still returns; entry \<open>i\<close> of \<open>CL_array\<close>
  is \<open>nan\<close>, and every other entry is the scaled mean over its own bin, whatever bin
  \<open>i\<close> holds.
\<close>

theorem empty_bin_is_nan:
  assumes "is_grid N Map1" "is_grid N Map2" "0 < N" "delta_ell \<noteq> 0"
    and "i < nat (py_int (ell_max / delta_ell))"
    and "bin_pixels (ell2d_grid pix_size N) N (real i * delta_ell) ((real i + 1) * delta_ell) = {}"
  shows "\<exists>PSMap ell_array CL_array.
           power_map Map1 Map2 = Inr PSMap \<and>
           calculate_2d_spectrum Map1 Map2 delta_ell ell_max pix_size N
             = Inr (ell_array, CL_array) \<and>
           i < length CL_array \<and> CL_array ! i = NaN \<and>
           (\<forall>j < length CL_array. j \<noteq> i \<longrightarrow>
              CL_array ! j =
                scale_CL pix_size (bin_mean (ell2d_grid pix_size N) PSMap N delta_ell j))"
proof -
  have nb: "0 \<le> py_int (ell_max / delta_ell)"
    using assms(5) by simp
  obtain P where P: "power_map Map1 Map2 = Inr P"
    and val: "calculate_2d_spectrum Map1 Map2 delta_ell ell_max pix_size N
             = Inr (map (\<lambda>j. py_int ((real j + 0.5) * delta_ell))
                        [0..<nat (py_int (ell_max / delta_ell))],
                    map (\<lambda>j. scale_CL pix_size
                                 (bin_mean (ell2d_grid pix_size N) P N delta_ell j))
                        [0..<nat (py_int (ell_max / delta_ell))])"
    using calculate_2d_spectrum_value[OF assms(1-4) nb] by blast
  have "bin_mean (ell2d_grid pix_size N) P N delta_ell i = NaN"
    using assms(6) by (simp add: bin_mean_def mean_over_def)
  then show ?thesis
    using P val assms(5) by simp
qed

theorem empty_bin_is_nan_witness:
  "is_grid 2 [[1, 0], [0, 0::real]] \<and> (0::nat) < 2 \<and> (1::real) \<noteq> 0
   \<and> 0 < nat (py_int (2 / 1))
   \<and> bin_pixels (ell2d_grid 10800 2) 2 (real (0::nat) * 1) ((real (0::nat) + 1) * 1) = {}
   \<and> (\<exists>PSMap ell_array CL_array.
           power_map [[1, 0], [0, 0]] [[1, 0], [0, 0]] = Inr PSMap \<and>
           calculate_2d_spectrum [[1, 0], [0, 0]] [[1, 0], [0, 0]] 1 2 10800 2
             = Inr (ell_array, CL_array) \<and>
           0 < length CL_array \<and> CL_array ! 0 = NaN \<and>
           (\<forall>j < length CL_array. j \<noteq> 0 \<longrightarrow>
              CL_array ! j = scale_CL 10800 (bin_mean (ell2d_grid 10800 2) PSMap 2 1 j)))"
proof -
  have h: "0 < nat (py_int (2 / 1))" by (simp add: py_int_def)
  have e: "bin_pixels (ell2d_grid 10800 2) 2 (real (0::nat) * 1) ((real (0::nat) + 1) * 1) = {}"
    by (rule bin_pixels_2_none) simp_all
  show ?thesis
    using empty_bin_is_nan [OF grid_2x2 grid_2x2 _ _ h e, of 1 0 0 0 1 0 0 0] h e
    by (simp add: grid_2x2)
qed

lemma power_map_auto_nonneg:
  assumes "is_grid N A" "0 < N" "power_map A A = Inr P" "r < N" "c < N"
  shows "0 \<le> P ! r ! c"
proof -
  obtain F where F: "ifft2 (fftshift (map (map complex_of_real) A)) = Inr F" "is_grid N F"
    using ifft2_grid[OF is_grid_fftshift[OF is_grid_map[OF assms(1)]] assms(2)] by blast
  have P: "P = fftshift (cross_power F F)"
    using assms(3) F(1) by (simp add: power_map_def)
  have "P ! r ! c = cross_power F F ! shift_ix N r ! shift_ix N c"
    unfolding P by (rule fftshift_nth[OF cross_power_grid[OF F(2) F(2)] assms(4,5)])
  also have "\<dots> = Re (cnj (F ! shift_ix N r ! shift_ix N c) * (F ! shift_ix N r ! shift_ix N c))"
    by (rule cross_power_nth[OF F(2) F(2)]) (simp_all add: shift_ix_less assms(2))
  also have "\<dots> \<ge> 0"
    by simp
  finally show ?thesis .
qed

lemma mean_over_nonneg:
  assumes "S \<noteq> {}" "\<And>p. p \<in> S \<Longrightarrow> 0 \<le> f p"
  shows "\<exists>m. mean_over S f = Fin m \<and> 0 \<le> m"
  using assms by (simp add: mean_over_def sum_nonneg)

text \<open>
  Claim C2. For a real \<open>N \<times> N\<close> map \<open>A\<close>, \<open>delta_ell > 0\<close> and a pixel size
  \<open>pix_size \<ge> 0\<close> (arcminutes per pixel), every bin of the auto-spectrum that holds a
  pixel has a non-negative value in the returned \<open>CL_array\<close>.
\<close>

theorem auto_spectrum_nonneg:
  assumes "is_grid N A" "0 < delta_ell" "0 \<le> pix_size"
    and "i < nat (py_int (ell_max / delta_ell))"
    and "bin_pixels (ell2d_grid pix_size N) N (real i * delta_ell) ((real i + 1) * delta_ell)
           \<noteq> {}"
  shows "\<exists>ell_array CL_array v.
           calculate_2d_spectrum A A delta_ell ell_max pix_size N = Inr (ell_array, CL_array) \<and>
           i < length CL_array \<and> CL_array ! i = Fin v \<and> 0 \<le> v"
proof -
  have N: "0 < N"
    using assms(5) by (auto simp: bin_pixels_def)
  have nb: "0 \<le> py_int (ell_max / delta_ell)" and d: "delta_ell \<noteq> 0"
    using assms(2,4) by simp_all
  obtain P where P: "power_map A A = Inr P"
    and val: "calculate_2d_spectrum A A delta_ell ell_max pix_size N
             = Inr (map (\<lambda>j. py_int ((real j + 0.5) * delta_ell))
                        [0..<nat (py_int (ell_max / delta_ell))],
                    map (\<lambda>j. scale_CL pix_size
                                 (bin_mean (ell2d_grid pix_size N) P N delta_ell j))
                        [0..<nat (py_int (ell_max / delta_ell))])"
    using calculate_2d_spectrum_value[OF assms(1) assms(1) N d nb] by blast
  have "\<exists>m. bin_mean (ell2d_grid pix_size N) P N delta_ell i = Fin m \<and> 0 \<le> m"
    unfolding bin_mean_def
  proof (rule mean_over_nonneg[OF assms(5)])
    fix p
    assume "p \<in> bin_pixels (ell2d_grid pix_size N) N (real i * delta_ell) ((real i + 1) * delta_ell)"
    then obtain r c where "p = (r, c)" "r < N" "c < N"
      by (auto simp: bin_pixels_def)
    then show "0 \<le> (case p of (r, c) \<Rightarrow> P ! r ! c)"
      using power_map_auto_nonneg[OF assms(1) N P] by simp
  qed
  then obtain m where m: "bin_mean (ell2d_grid pix_size N) P N delta_ell i = Fin m" "0 \<le> m"
    by blast
  have "scale_CL pix_size (Fin m) = Fin (m * sqrt (pix_size / 60 * pi / 180) * 2)"
    by (rule scale_CL_fin[OF assms(3)])
  moreover have "0 \<le> m * sqrt (pix_size / 60 * pi / 180) * 2"
    using m(2) assms(3) by simp
  ultimately show ?thesis
    using val m(1) assms(4) by simp
qed

theorem auto_spectrum_nonneg_witness:
  "is_grid 2 [[1, 0], [0, 0::real]] \<and> (0::real) < 1 \<and> (0::real) \<le> 10800
   \<and> 1 < nat (py_int (2 / 1))
   \<and> bin_pixels (ell2d_grid 10800 2) 2 (real (1::nat) * 1) ((real (1::nat) + 1) * 1) \<noteq> {}
   \<and> (\<exists>ell_array CL_array v.
         calculate_2d_spectrum [[1, 0], [0, 0]] [[1, 0], [0, 0]] 1 2 10800 2
           = Inr (ell_array, CL_array) \<and>
         1 < length CL_array \<and> CL_array ! 1 = Fin v \<and> 0 \<le> v)"
proof -
  have h: "1 < nat (py_int (2 / 1))" by (simp add: py_int_def)
  have "bin_pixels (ell2d_grid 10800 2) 2 (real (1::nat) * 1) ((real (1::nat) + 1) * 1)
      = {..<2} \<times> {..<2}"
    by (rule bin_pixels_2_all) (simp_all add: sqrt2_less_2)
  then have "(0, 0) \<in> bin_pixels (ell2d_grid 10800 2) 2 (real (1::nat) * 1) ((real (1::nat) + 1) * 1)"
    by simp
  then have e: "bin_pixels (ell2d_grid 10800 2) 2 (real (1::nat) * 1) ((real (1::nat) + 1) * 1)
      \<noteq> {}"
    by blast
  show ?thesis
    using auto_spectrum_nonneg [OF grid_2x2 _ _ h e, of 1 0 0 0] h e
    by (simp add: grid_2x2)
qed

lemma spectrum_2x2_value:
  assumes "p = 10800 \<or> p = - 10800"
  shows "calculate_2d_spectrum [[1, 0], [0, 0]] [[1, 0], [0, 0]] 1 2 p 2
       = Inr ([0, 1], [NaN, scale_CL p (Fin (1 / 16))])"
proof -
  let ?A = "[[1, 0], [0, 0::real]]"
  let ?P = "[[1 / 16, 1 / 16], [1 / 16, 1 / 16::real]]"
  have nb: "nat (py_int (2 / 1)) = 2"
    by (simp add: py_int_def)
  have nb0: "0 \<le> py_int (2 / 1)"
    by (simp add: py_int_def)
  obtain P where P: "power_map ?A ?A = Inr P"
    and val: "calculate_2d_spectrum ?A ?A 1 2 p 2
             = Inr (map (\<lambda>j. py_int ((real j + 0.5) * 1)) [0..<nat (py_int (2 / 1))],
                    map (\<lambda>j. scale_CL p (bin_mean (ell2d_grid p 2) P 2 1 j))
                        [0..<nat (py_int (2 / 1))])"
    using calculate_2d_spectrum_value[OF grid_2x2 grid_2x2 _ _ nb0, of 1 0 0 0 1 0 0 0 p]
    by auto
  have Peq: "P = ?P"
    using P by (simp add: power_map_unit)
  have b0: "bin_mean (ell2d_grid p 2) P 2 1 0 = NaN"
    using bin_pixels_2_none[OF assms, of 1 0] by (simp add: bin_mean_def mean_over_def)
  have all: "bin_pixels (ell2d_grid p 2) 2 1 2 = {..<2} \<times> {..<2}"
    by (rule bin_pixels_2_all[OF assms]) (simp_all add: sqrt2_less_2)
  have "mean_over ({..<2} \<times> {..<2}) (\<lambda>(r, c). ?P ! r ! c) = Fin (1 / 16)"
  proof (rule mean_over_const)
    fix q :: "nat \<times> nat"
    assume "q \<in> {..<2} \<times> {..<2}"
    then obtain r c where q: "q = (r, c)" and "r < 2" "c < 2"
      by (cases q) auto
    then have "q = (r, c)" "r = 0 \<or> r = 1" "c = 0 \<or> c = 1"
      by auto
    then show "(case q of (r, c) \<Rightarrow> ?P ! r ! c) = 1 / 16"
      by auto
  next
    have "(0, 0) \<in> {..<2::nat} \<times> {..<2::nat}" by simp
    then show "{..<2::nat} \<times> {..<2::nat} \<noteq> {}" by blast
  qed simp
  then have b1: "bin_mean (ell2d_grid p 2) P 2 1 1 = Fin (1 / 16)"
    using all by (simp add: bin_mean_def Peq)
  have ints: "py_int ((real (0::nat) + 0.5) * 1) = 0" "py_int ((real (1::nat) + 0.5) * 1) = 1"
    by (simp_all add: py_int_def)
  have upt2: "[0..<2] = [0, 1]"
    by (simp add: numeral_2_eq_2)
  show ?thesis
    unfolding val nb upt2 using b0 b1 ints by simp
qed

text \<open>
  Claim C3 (the bin centres are \<open>(i + 0.5) \<cdot> delta_ell\<close>) against the code at
  \<open>delta_ell = 1\<close>: \<open>ell_array\<close> is an integer array, the centres 0.5 and 1.5 are stored
  as 0 and 1.
\<close>

theorem ell_array_is_truncated:
  "calculate_2d_spectrum [[1, 0], [0, 0]] [[1, 0], [0, 0]] 1 2 10800 2
     = Inr ([0, 1], [NaN, Fin (sqrt pi / 8)])"
proof -
  have "scale_CL 10800 (Fin (1 / 16)) = Fin (sqrt pi / 8)"
    by (simp add: scale_CL_def)
  then show ?thesis
    using spectrum_2x2_value[of 10800] by simp
qed

section \<open>The power map and the forward transform\<close>

lemma shift_ix_inverse:
  assumes "0 < n" "j < n"
  shows "shift_ix n ((j + n div 2) mod n) = j"
proof -
  have "shift_ix n ((j + n div 2) mod n) = (n - n div 2 + (j + n div 2)) mod n"
    unfolding shift_ix_def by (rule mod_add_right_eq)
  also have "n - n div 2 + (j + n div 2) = n + j"
    by simp
  also have "(n + j) mod n = j"
    using assms(2) by simp
  finally show ?thesis .
qed

lemma shift_ix_inverse':
  assumes "0 < n" "i < n"
  shows "(shift_ix n i + n div 2) mod n = i"
proof -
  have "(shift_ix n i + n div 2) mod n = (n - n div 2 + i + n div 2) mod n"
    unfolding shift_ix_def by (rule mod_add_left_eq)
  also have "n - n div 2 + i + n div 2 = n + i"
    by simp
  also have "(n + i) mod n = i"
    using assms(2) by simp
  finally show ?thesis .
qed

lemma sum_shift_ix:
  assumes "0 < n"
  shows "(\<Sum>p<n. h (shift_ix n p)) = (\<Sum>p<n. h p)"
  by (rule sum.reindex_bij_witness[where i = "\<lambda>j. (j + n div 2) mod n" and j = "shift_ix n"])
     (simp_all add: shift_ix_inverse shift_ix_inverse' shift_ix_less assms)

lemma cis_2pi_nat: "cis (2 * pi * real m) = 1"
  by (rule cis_multiple_2pi) simp

lemma phase_shift_ix:
  assumes "0 < n"
  shows "phase n k (shift_ix n p) = phase n k (n - n div 2) * phase n k p"
proof -
  define s where "s = n - n div 2"
  define j where "j = (s + p) div n"
  have "j * n + shift_ix n p = s + p"
    unfolding j_def shift_ix_def s_def by (rule div_mult_mod_eq)
  then have "real j * real n + real (shift_ix n p) = real s + real p"
    by (metis of_nat_add of_nat_mult)
  then have r: "real (shift_ix n p) = real s + real p - real j * real n"
    by simp
  have "2 * pi * (real k * real (shift_ix n p) / real n)
      = 2 * pi * (real k * real s / real n) + 2 * pi * (real k * real p / real n)
        - 2 * pi * real (k * j)"
    unfolding r using assms by (simp add: field_simps)
  then have "phase n k (shift_ix n p)
      = cis (2 * pi * (real k * real s / real n) + 2 * pi * (real k * real p / real n)
             - 2 * pi * real (k * j))"
    by (simp only: phase_def)
  also have "\<dots> = phase n k s * phase n k p * cnj (cis (2 * pi * real (k * j)))"
    by (simp only: phase_def cis_mult[symmetric] cis_cnj diff_conv_add_uminus)
  also have "\<dots> = phase n k s * phase n k p"
    by (simp only: cis_2pi_nat complex_cnj_one mult_1_right)
  finally show ?thesis
    by (simp only: s_def)
qed

lemma phase_unit: "cnj (phase n k p) * phase n k p = 1"
  by (simp add: phase_def cis_cnj cis_mult)

lemma sum_shift_phase:
  assumes "0 < n"
  shows "(\<Sum>p<n. g (shift_ix n p) * phase n k p)
       = cnj (phase n k (n - n div 2)) * (\<Sum>p<n. g p * phase n k p)"
proof -
  let ?psi = "phase n k (n - n div 2)"
  have "(\<Sum>p<n. g (shift_ix n p) * phase n k p)
      = (\<Sum>p<n. cnj ?psi * (g (shift_ix n p) * phase n k (shift_ix n p)))"
  proof (rule sum.cong[OF refl])
    fix p
    have "cnj ?psi * (g (shift_ix n p) * phase n k (shift_ix n p))
        = g (shift_ix n p) * ((cnj ?psi * ?psi) * phase n k p)"
      unfolding phase_shift_ix[OF assms] by (simp only: mult_ac)
    then show "g (shift_ix n p) * phase n k p
        = cnj ?psi * (g (shift_ix n p) * phase n k (shift_ix n p))"
      by (simp only: phase_unit mult_1_left)
  qed
  also have "\<dots> = cnj ?psi * (\<Sum>p<n. g (shift_ix n p) * phase n k (shift_ix n p))"
    by (simp only: sum_distrib_left)
  also have "(\<Sum>p<n. g (shift_ix n p) * phase n k (shift_ix n p)) = (\<Sum>p<n. g p * phase n k p)"
    by (rule sum_shift_ix[OF assms, of "\<lambda>p. g p * phase n k p"])
  finally show ?thesis .
qed

lemma cis_phase:
  "cis (2 * pi * (real k * real p / real n + real l * real q / real n))
     = phase n k p * phase n l q"
  by (simp add: phase_def cis_mult distrib_left)

lemma cis_phase_minus:
  "cis (- (2 * pi * (real k * real p / real n + real l * real q / real n)))
     = cnj (phase n k p * phase n l q)"
  by (simp only: cis_phase[symmetric] cis_cnj)

lemma dft_sum_shift:
  assumes "0 < n"
  shows "dft_sum n (\<lambda>p q. a (shift_ix n p) (shift_ix n q)) k l
       = cnj (phase n k (n - n div 2)) * cnj (phase n l (n - n div 2)) * dft_sum n a k l"
proof -
  let ?pk = "cnj (phase n k (n - n div 2))" and ?pl = "cnj (phase n l (n - n div 2))"
  define H where "H p = (\<Sum>q<n. a p q * phase n l q)" for p
  have inner: "(\<Sum>q<n. a (shift_ix n p) (shift_ix n q) * (phase n k p * phase n l q))
             = ?pl * (H (shift_ix n p) * phase n k p)" for p
  proof -
    have "(\<Sum>q<n. a (shift_ix n p) (shift_ix n q) * (phase n k p * phase n l q))
        = phase n k p * (\<Sum>q<n. a (shift_ix n p) (shift_ix n q) * phase n l q)"
      by (simp only: sum_distrib_left mult_ac)
    also have "(\<Sum>q<n. a (shift_ix n p) (shift_ix n q) * phase n l q)
        = ?pl * H (shift_ix n p)"
      unfolding H_def by (rule sum_shift_phase[OF assms])
    finally show ?thesis by (simp only: mult_ac)
  qed
  have "dft_sum n (\<lambda>p q. a (shift_ix n p) (shift_ix n q)) k l
      = (\<Sum>p<n. ?pl * (H (shift_ix n p) * phase n k p))"
    unfolding dft_sum_def by (simp only: inner)
  also have "\<dots> = ?pl * (\<Sum>p<n. H (shift_ix n p) * phase n k p)"
    by (simp only: sum_distrib_left)
  also have "(\<Sum>p<n. H (shift_ix n p) * phase n k p) = ?pk * (\<Sum>p<n. H p * phase n k p)"
    by (rule sum_shift_phase[OF assms])
  also have "(\<Sum>p<n. H p * phase n k p) = dft_sum n a k l"
    unfolding dft_sum_def H_def
    by (intro sum.cong refl) (simp add: sum_distrib_left mult_ac)
  finally show ?thesis by (simp only: mult_ac)
qed

lemma dft_sum_cnj:
  "cnj (dft_sum n (\<lambda>p q. complex_of_real (A p q)) k l)
     = (\<Sum>p<n. \<Sum>q<n. complex_of_real (A p q) * cnj (phase n k p * phase n l q))"
  by (simp add: dft_sum_def)

lemma fft2_grid:
  assumes "is_grid N a" "0 < N"
  shows "\<exists>F. fft2 a = Inr F \<and> is_grid N F
       \<and> (\<forall>k<N. \<forall>l<N. F ! k ! l =
            (\<Sum>p<N. \<Sum>q<N. a ! p ! q *
                cis (- (2 * pi * (real k * real p / real N + real l * real q / real N)))))"
  using assms
  by (auto simp: fft2_def Let_def is_grid_ncols is_grid_length intro!: is_gridI)

lemma real_map_nth:
  assumes "is_grid N A" "p < N" "q < N"
  shows "map (map complex_of_real) A ! p ! q = complex_of_real (A ! p ! q)"
  using assms by (simp add: is_grid_length is_gridD)

lemma ifft2_shifted_entry:
  assumes "is_grid N A" "0 < N" "ifft2 (fftshift (map (map complex_of_real) A)) = Inr G"
    and "k < N" "l < N"
  shows "G ! k ! l = cnj (phase N k (N - N div 2)) * cnj (phase N l (N - N div 2))
           * dft_sum N (\<lambda>p q. complex_of_real (A ! p ! q)) k l / (real N * real N)"
proof -
  let ?a = "fftshift (map (map complex_of_real) A)"
  have g: "is_grid N (map (map complex_of_real) A)"
    by (rule is_grid_map[OF assms(1)])
  have entry: "?a ! p ! q = complex_of_real (A ! shift_ix N p ! shift_ix N q)"
    if "p < N" "q < N" for p q
    using that fftshift_nth[OF g that] real_map_nth[OF assms(1)] shift_ix_less[OF assms(2)]
    by simp
  have "G ! k ! l = (\<Sum>p<N. \<Sum>q<N. ?a ! p ! q *
                cis (2 * pi * (real k * real p / real N + real l * real q / real N)))
            / (real N * real N)"
    using ifft2_grid[OF is_grid_fftshift[OF g] assms(2)] assms(3-5) by auto
  also have "(\<Sum>p<N. \<Sum>q<N. ?a ! p ! q *
                cis (2 * pi * (real k * real p / real N + real l * real q / real N)))
      = dft_sum N (\<lambda>p q. complex_of_real (A ! shift_ix N p ! shift_ix N q)) k l"
    unfolding dft_sum_def cis_phase
    by (intro sum.cong refl) (simp add: entry)
  also have "\<dots> = cnj (phase N k (N - N div 2)) * cnj (phase N l (N - N div 2))
           * dft_sum N (\<lambda>p q. complex_of_real (A ! p ! q)) k l"
    by (rule dft_sum_shift[OF assms(2), of "\<lambda>p q. complex_of_real (A ! p ! q)"])
  finally show ?thesis .
qed

lemma fft2_entry:
  assumes "is_grid N A" "0 < N" "fft2 (map (map complex_of_real) A) = Inr T" "k < N" "l < N"
  shows "T ! k ! l = cnj (dft_sum N (\<lambda>p q. complex_of_real (A ! p ! q)) k l)"
proof -
  have g: "is_grid N (map (map complex_of_real) A)"
    by (rule is_grid_map[OF assms(1)])
  have "T ! k ! l = (\<Sum>p<N. \<Sum>q<N. map (map complex_of_real) A ! p ! q *
                cis (- (2 * pi * (real k * real p / real N + real l * real q / real N))))"
    using fft2_grid[OF g assms(2)] assms(3-5) by auto
  also have "\<dots> = (\<Sum>p<N. \<Sum>q<N. complex_of_real (A ! p ! q) * cnj (phase N k p * phase N l q))"
    unfolding cis_phase_minus
    by (intro sum.cong refl) (simp add: real_map_nth[OF assms(1)])
  finally show ?thesis
    by (simp only: dft_sum_cnj)
qed

lemma spec_cross_power_grid:
  assumes "is_grid N A" "is_grid N B" "0 < N"
  shows "\<exists>T1 T2. fft2 (map (map complex_of_real) A) = Inr T1 \<and> is_grid N T1
          \<and> fft2 (map (map complex_of_real) B) = Inr T2 \<and> is_grid N T2
          \<and> spec_cross_power A B = Inr (cross_power T1 T2)"
proof -
  obtain T1 where T1: "fft2 (map (map complex_of_real) A) = Inr T1" "is_grid N T1"
    using fft2_grid[OF is_grid_map[OF assms(1)] assms(3)] by blast
  obtain T2 where T2: "fft2 (map (map complex_of_real) B) = Inr T2" "is_grid N T2"
    using fft2_grid[OF is_grid_map[OF assms(2)] assms(3)] by blast
  show ?thesis
    using T1 T2 by (simp add: spec_cross_power_def)
qed

lemma cross_term:
  fixes J1 J2 u v :: complex and m :: real
  assumes "cnj u * u = 1" "cnj v * v = 1"
  shows "Re (cnj (cnj u * cnj v * J1 / m) * (cnj u * cnj v * J2 / m))
       = Re (cnj (cnj J1) * cnj J2) / (m * m)"
proof -
  have "cnj (cnj u * cnj v * J1 / m) * (cnj u * cnj v * J2 / m)
      = (cnj u * u) * (cnj v * v) * (cnj J1 * J2) / (m * m)"
    by (simp add: mult_ac)
  also have "\<dots> = (cnj J1 * J2) / (m * m)"
    by (simp only: assms mult_1_left)
  finally have "Re (cnj (cnj u * cnj v * J1 / m) * (cnj u * cnj v * J2 / m))
      = Re (cnj J1 * J2) / (m * m)"
    by (metis Re_divide_of_real of_real_mult)
  also have "Re (cnj J1 * J2) = Re (cnj (cnj J1 * J2))"
    by simp
  also have "cnj (cnj J1 * J2) = cnj (cnj J1) * cnj J2"
    by simp
  finally show ?thesis .
qed

text \<open>
  Claim C4, amended. The grid that is binned is not the forward-transform cross-power
  itself: each map is re-centred by \<open>fftshift\<close> and transformed by \<^verbatim>\<open>np.fft.ifft2\<close>, the
  inverse transform with its factor \<open>1 / N\<^sup>2\<close>, and the real part of the product is
  re-centred again. For real \<open>N \<times> N\<close> maps its entry \<open>(r, c)\<close> is the forward-transform
  cross-power \<open>Re (conj (fft2 Map1) \<cdot> fft2 Map2)\<close> at the shifted index, divided by \<open>N\<^sup>4\<close>.
\<close>

theorem power_map_is_scaled_shifted_forward_power:
  assumes "is_grid N Map1" "is_grid N Map2" "0 < N"
  shows "\<exists>PSMap S.
           power_map Map1 Map2 = Inr PSMap \<and> is_grid N PSMap \<and>
           spec_cross_power Map1 Map2 = Inr S \<and> is_grid N S \<and>
           (\<forall>r<N. \<forall>c<N. PSMap ! r ! c = S ! shift_ix N r ! shift_ix N c / real N ^ 4)"
proof -
  obtain G1 where G1: "ifft2 (fftshift (map (map complex_of_real) Map1)) = Inr G1" "is_grid N G1"
    using ifft2_grid[OF is_grid_fftshift[OF is_grid_map[OF assms(1)]] assms(3)] by blast
  obtain G2 where G2: "ifft2 (fftshift (map (map complex_of_real) Map2)) = Inr G2" "is_grid N G2"
    using ifft2_grid[OF is_grid_fftshift[OF is_grid_map[OF assms(2)]] assms(3)] by blast
  obtain T1 T2 where T: "fft2 (map (map complex_of_real) Map1) = Inr T1" "is_grid N T1"
      "fft2 (map (map complex_of_real) Map2) = Inr T2" "is_grid N T2"
      "spec_cross_power Map1 Map2 = Inr (cross_power T1 T2)"
    using spec_cross_power_grid[OF assms] by blast
  let ?P = "fftshift (cross_power G1 G2)"
  have P: "power_map Map1 Map2 = Inr ?P"
    using G1 G2 by (simp add: power_map_def)
  have gP: "is_grid N ?P"
    by (rule is_grid_fftshift[OF cross_power_grid[OF G1(2) G2(2)]])
  have gS: "is_grid N (cross_power T1 T2)"
    by (rule cross_power_grid[OF T(2) T(4)])
  have entry: "?P ! r ! c = cross_power T1 T2 ! shift_ix N r ! shift_ix N c / real N ^ 4"
    if rc: "r < N" "c < N" for r c
  proof -
    let ?k = "shift_ix N r" and ?l = "shift_ix N c"
    have kl: "?k < N" "?l < N"
      by (simp_all add: shift_ix_less assms(3))
    let ?J1 = "dft_sum N (\<lambda>p q. complex_of_real (Map1 ! p ! q)) ?k ?l"
    let ?J2 = "dft_sum N (\<lambda>p q. complex_of_real (Map2 ! p ! q)) ?k ?l"
    let ?u = "phase N ?k (N - N div 2)" and ?v = "phase N ?l (N - N div 2)"
    have "?P ! r ! c = cross_power G1 G2 ! ?k ! ?l"
      by (rule fftshift_nth[OF cross_power_grid[OF G1(2) G2(2)] rc])
    also have "\<dots> = Re (cnj (G1 ! ?k ! ?l) * (G2 ! ?k ! ?l))"
      by (rule cross_power_nth[OF G1(2) G2(2) kl])
    also have "\<dots> = Re (cnj (cnj ?u * cnj ?v * ?J1 / (real N * real N))
                        * (cnj ?u * cnj ?v * ?J2 / (real N * real N)))"
      unfolding ifft2_shifted_entry[OF assms(1,3) G1(1) kl]
                ifft2_shifted_entry[OF assms(2,3) G2(1) kl]
      by (simp only: of_real_mult)
    also have "\<dots> = Re (cnj (cnj ?J1) * cnj ?J2) / ((real N * real N) * (real N * real N))"
      using cross_term[of ?u ?v ?J1 "real N * real N" ?J2, OF phase_unit phase_unit]
      by (simp only: of_real_mult)
    also have "Re (cnj (cnj ?J1) * cnj ?J2) = cross_power T1 T2 ! ?k ! ?l"
      unfolding cross_power_nth[OF T(2) T(4) kl]
                fft2_entry[OF assms(1,3) T(1) kl] fft2_entry[OF assms(2,3) T(3) kl] ..
    finally show ?thesis
      by (simp add: power4_eq_xxxx)
  qed
  show ?thesis
    using P gP T(5) gS entry by blast
qed

theorem power_map_is_scaled_shifted_forward_power_witness:
  "is_grid 2 [[1, 0], [0, 0::real]] \<and> (0::nat) < 2
   \<and> (\<exists>PSMap S.
         power_map [[1, 0], [0, 0]] [[1, 0], [0, 0]] = Inr PSMap \<and> is_grid 2 PSMap \<and>
         spec_cross_power [[1, 0], [0, 0]] [[1, 0], [0, 0]] = Inr S \<and> is_grid 2 S \<and>
         (\<forall>r<2. \<forall>c<2. PSMap ! r ! c = S ! shift_ix 2 r ! shift_ix 2 c / real 2 ^ 4))"
  using power_map_is_scaled_shifted_forward_power [OF grid_2x2 grid_2x2, of 1 0 0 0 1 0 0 0]
  by (simp add: grid_2x2)

text \<open>
  Claim C4 as stated fails on the map with a single unit pixel: the forward-transform
  cross-power is 1 everywhere, the grid the code bins is \<open>1/16 = 1/N\<^sup>4\<close> everywhere.
\<close>

theorem power_map_differs_from_forward_power:
  "power_map [[1, 0], [0, 0]] [[1, 0], [0, 0]] = Inr [[1 / 16, 1 / 16], [1 / 16, 1 / 16]]
   \<and> spec_cross_power [[1, 0], [0, 0]] [[1, 0], [0, 0]] = Inr [[1, 1], [1, 1]]"
  by (simp add: power_map_unit spec_cross_power_def fft2_def ncols_def Let_def
      lessThan_Suc numeral_2_eq_2 cross_power_def)

section \<open>Properties of the quadratic estimator\<close>

lemma those_fin_row: "those (map (fin_value \<circ> Fin) xs) = Some xs"
  by (induction xs) simp_all

lemma finite_grid_Fin: "finite_grid (map (map Fin) g) = Some g"
proof -
  have "those (map (\<lambda>row. those (map fin_value row)) (map (map Fin) g)) = Some g"
    by (induction g) (simp_all add: those_fin_row)
  then show ?thesis by (simp add: finite_grid_def)
qed

lemma kmask_nth:
  assumes "is_grid N value_grid" "is_grid N modlmap" "r < N" "c < N"
  shows "kmask value_grid modlmap ellmin ellmax ! r ! c
       = (if ellmin \<le> modlmap ! r ! c
             \<and> (case ellmax of None \<Rightarrow> True | Some hi \<Rightarrow> modlmap ! r ! c < hi)
          then value_grid ! r ! c else Fin 0)"
  using assms by (simp add: kmask_def is_grid_length is_gridD)

lemma is_grid_map2:
  assumes "is_grid N a" "is_grid N b"
  shows "is_grid N (map2 (map2 f) a b)"
  using assms by (intro is_gridI) (simp_all add: is_grid_length is_gridD)

lemma map2_grid_nth:
  assumes "is_grid N a" "is_grid N b" "r < N" "c < N"
  shows "map2 (map2 f) a b ! r ! c = f (a ! r ! c) (b ! r ! c)"
  using assms by (simp add: is_grid_length is_gridD)

lemma map_grid_nth:
  assumes "is_grid N a" "r < N" "c < N"
  shows "map (map f) a ! r ! c = f (a ! r ! c)"
  using assms by (simp add: is_grid_length is_gridD)

lemma qe_reconstruct_calls:
  "snd (qe_reconstruct recon_kappa tmap unlensed_cmb_power_2d total_cmb_power_2d ellmin ellmax
          modlmap ly lx)
   = [KMask (map (map (\<lambda>t. np_div (Fin 1) (Fin t))) total_cmb_power_2d)
            modlmap ellmin (Some ellmax),
      KMask (map2 (map2 (\<lambda>u t. np_div (Fin u) (Fin t)))
               unlensed_cmb_power_2d total_cmb_power_2d)
            modlmap ellmin (Some ellmax),
      Gradient tmap ly lx,
      FilterMap (fst (gradient tmap ly lx))
        (kmask (map2 (map2 (\<lambda>u t. np_div (Fin u) (Fin t)))
                  unlensed_cmb_power_2d total_cmb_power_2d)
               modlmap ellmin (Some ellmax)),
      FilterMap (snd (gradient tmap ly lx))
        (kmask (map2 (map2 (\<lambda>u t. np_div (Fin u) (Fin t)))
                  unlensed_cmb_power_2d total_cmb_power_2d)
               modlmap ellmin (Some ellmax)),
      FilterMap tmap
        (kmask (map (map (\<lambda>t. np_div (Fin 1) (Fin t))) total_cmb_power_2d)
               modlmap ellmin (Some ellmax))]
     @ (case recon_kappa of
          None \<Rightarrow> []
        | Some raw \<Rightarrow> [KMask (inverse_L2 modlmap) modlmap 2 None,
                       FilterMap raw (flattening_filter modlmap)])"
  by (cases recon_kappa) (simp_all add: qe_reconstruct_def Let_def split: prod.splits)

text \<open>
  Claim C7. Whether \<open>recon_kappa\<close> is bound or not, \<open>qe_reconstruct\<close> starts with these
  six calls: \<open>kmask\<close> on \<open>1./total_cmb_power_2d\<close> and \<open>kmask\<close> on
  \<open>unlensed_cmb_power_2d/total_cmb_power_2d\<close>, both with the band \<open>[ellmin, ellmax)\<close>;
  \<open>gradient\<close> of \<open>tmap\<close>; \<open>filter_map\<close> of each of the two gradient components with the
  second filter, and \<open>filter_map\<close> of \<open>tmap\<close> itself with the first. Exactly two of all
  its calls build a transfer function on the band \<open>[ellmin, ellmax)\<close>. The first filter
  is \<open>1 / total_cmb_power_2d\<close> at the Fourier pixels with \<open>ellmin \<le> modlmap < ellmax\<close> and
  zero elsewhere, the second \<open>unlensed_cmb_power_2d / total_cmb_power_2d\<close> there and zero
  elsewhere.
\<close>

theorem qe_two_filters:
  assumes "is_grid N total_cmb_power_2d" "is_grid N unlensed_cmb_power_2d" "is_grid N modlmap"
  shows "\<exists>inverse_power power_ratio inv_noise_filter grad_filter gradTy gradTx rest.
           snd (qe_reconstruct recon_kappa tmap unlensed_cmb_power_2d total_cmb_power_2d
                  ellmin ellmax modlmap ly lx)
             = [KMask inverse_power modlmap ellmin (Some ellmax),
                KMask power_ratio modlmap ellmin (Some ellmax),
                Gradient tmap ly lx,
                FilterMap gradTy grad_filter,
                FilterMap gradTx grad_filter,
                FilterMap tmap inv_noise_filter] @ rest
         \<and> length (filter (\<lambda>call. band_of call = Some (ellmin, Some ellmax))
               (snd (qe_reconstruct recon_kappa tmap unlensed_cmb_power_2d total_cmb_power_2d
                       ellmin ellmax modlmap ly lx))) = 2
         \<and> inv_noise_filter = kmask inverse_power modlmap ellmin (Some ellmax)
         \<and> grad_filter = kmask power_ratio modlmap ellmin (Some ellmax)
         \<and> (gradTy, gradTx) = gradient tmap ly lx
         \<and> (\<forall>r<N. \<forall>c<N.
               inv_noise_filter ! r ! c
                 = (if ellmin \<le> modlmap ! r ! c \<and> modlmap ! r ! c < ellmax
                    then np_div (Fin 1) (Fin (total_cmb_power_2d ! r ! c)) else Fin 0)
             \<and> grad_filter ! r ! c
                 = (if ellmin \<le> modlmap ! r ! c \<and> modlmap ! r ! c < ellmax
                    then np_div (Fin (unlensed_cmb_power_2d ! r ! c))
                                (Fin (total_cmb_power_2d ! r ! c))
                    else Fin 0))"
proof -
  let ?ip = "map (map (\<lambda>t. np_div (Fin 1) (Fin t))) total_cmb_power_2d"
  let ?pr = "map2 (map2 (\<lambda>u t. np_div (Fin u) (Fin t))) unlensed_cmb_power_2d total_cmb_power_2d"
  let ?inv = "kmask ?ip modlmap ellmin (Some ellmax)"
  let ?wf = "kmask ?pr modlmap ellmin (Some ellmax)"
  let ?rest = "case recon_kappa of
                 None \<Rightarrow> []
               | Some raw \<Rightarrow> [KMask (inverse_L2 modlmap) modlmap 2 None,
                              FilterMap raw (flattening_filter modlmap)]"
  let ?calls = "snd (qe_reconstruct recon_kappa tmap unlensed_cmb_power_2d total_cmb_power_2d
                       ellmin ellmax modlmap ly lx)"
  have calls: "?calls = [KMask ?ip modlmap ellmin (Some ellmax),
                         KMask ?pr modlmap ellmin (Some ellmax),
                         Gradient tmap ly lx,
                         FilterMap (fst (gradient tmap ly lx)) ?wf,
                         FilterMap (snd (gradient tmap ly lx)) ?wf,
                         FilterMap tmap ?inv] @ ?rest"
    by (rule qe_reconstruct_calls)
  have two: "length (filter (\<lambda>call. band_of call = Some (ellmin, Some ellmax)) ?calls) = 2"
    unfolding calls by (cases recon_kappa) simp_all
  have inv: "?inv ! r ! c
      = (if ellmin \<le> modlmap ! r ! c \<and> modlmap ! r ! c < ellmax
         then np_div (Fin 1) (Fin (total_cmb_power_2d ! r ! c)) else Fin 0)"
    if "r < N" "c < N" for r c
    using kmask_nth[OF is_grid_map[OF assms(1)] assms(3) that, of "\<lambda>t. np_div (Fin 1) (Fin t)"
        ellmin "Some ellmax"]
      map_grid_nth[OF assms(1) that, of "\<lambda>t. np_div (Fin 1) (Fin t)"]
    by (simp del: np_div.simps)
  have wf: "?wf ! r ! c
      = (if ellmin \<le> modlmap ! r ! c \<and> modlmap ! r ! c < ellmax
         then np_div (Fin (unlensed_cmb_power_2d ! r ! c)) (Fin (total_cmb_power_2d ! r ! c))
         else Fin 0)"
    if "r < N" "c < N" for r c
    using kmask_nth[OF is_grid_map2[OF assms(2,1)] assms(3) that,
        of "\<lambda>u t. np_div (Fin u) (Fin t)" ellmin "Some ellmax"]
      map2_grid_nth[OF assms(2,1) that, of "\<lambda>u t. np_div (Fin u) (Fin t)"]
    by (simp del: np_div.simps)
  show ?thesis
    apply (rule exI[of _ ?ip], rule exI[of _ ?pr], rule exI[of _ ?inv], rule exI[of _ ?wf])
    apply (rule exI[of _ "fst (gradient tmap ly lx)"], rule exI[of _ "snd (gradient tmap ly lx)"])
    apply (rule exI[of _ ?rest])
    using calls two inv wf by (simp del: np_div.simps)
qed

theorem qe_two_filters_witness:
  "is_grid 2 [[2, 4], [4, 8::real]] \<and> is_grid 2 [[1, 2], [2, 4::real]]
   \<and> is_grid 2 [[0, 30], [30, 50::real]]
   \<and> length (filter (\<lambda>call. band_of call = Some (10, Some 40))
        (snd (qe_reconstruct None [[1, 0], [0, 0]] [[1, 2], [2, 4]] [[2, 4], [4, 8]] 10 40
                [[0, 30], [30, 50]] [[0, 0], [30, 30]] [[0, 30], [0, 30]]))) = 2
   \<and> take 2 (snd (qe_reconstruct None [[1, 0], [0, 0]] [[1, 2], [2, 4]] [[2, 4], [4, 8]] 10 40
                [[0, 30], [30, 50]] [[0, 0], [30, 30]] [[0, 30], [0, 30]]))
      = [KMask [[Fin (1 / 2), Fin (1 / 4)], [Fin (1 / 4), Fin (1 / 8)]]
               [[0, 30], [30, 50]] 10 (Some 40),
         KMask [[Fin (1 / 2), Fin (1 / 2)], [Fin (1 / 2), Fin (1 / 2)]]
               [[0, 30], [30, 50]] 10 (Some 40)]
   \<and> kmask [[Fin (1 / 2), Fin (1 / 4)], [Fin (1 / 4), Fin (1 / 8)]] [[0, 30], [30, 50]]
         10 (Some 40) = [[Fin 0, Fin (1 / 4)], [Fin (1 / 4), Fin 0]]
   \<and> kmask [[Fin (1 / 2), Fin (1 / 2)], [Fin (1 / 2), Fin (1 / 2)]] [[0, 30], [30, 50]]
         10 (Some 40) = [[Fin 0, Fin (1 / 2)], [Fin (1 / 2), Fin 0]]"
proof -
  have g: "is_grid 2 [[2, 4], [4, 8::real]]" "is_grid 2 [[1, 2], [2, 4::real]]"
      "is_grid 2 [[0, 30], [30, 50::real]]"
    by (rule grid_2x2)+
  from qe_two_filters [OF g, where recon_kappa = None and tmap = "[[1, 0], [0, 0]]"
      and ellmin = 10 and ellmax = 40 and ly = "[[0, 0], [30, 30]]" and lx = "[[0, 30], [0, 30]]"]
  have two: "length (filter (\<lambda>call. band_of call = Some (10, Some 40))
        (snd (qe_reconstruct None [[1, 0], [0, 0]] [[1, 2], [2, 4]] [[2, 4], [4, 8]] 10 40
                [[0, 30], [30, 50]] [[0, 0], [30, 30]] [[0, 30], [0, 30]]))) = 2"
    by blast
  have vals: "take 2 (snd (qe_reconstruct None [[1, 0], [0, 0]] [[1, 2], [2, 4]] [[2, 4], [4, 8]]
                10 40 [[0, 30], [30, 50]] [[0, 0], [30, 30]] [[0, 30], [0, 30]]))
      = [KMask [[Fin (1 / 2), Fin (1 / 4)], [Fin (1 / 4), Fin (1 / 8)]]
               [[0, 30], [30, 50]] 10 (Some 40),
         KMask [[Fin (1 / 2), Fin (1 / 2)], [Fin (1 / 2), Fin (1 / 2)]]
               [[0, 30], [30, 50]] 10 (Some 40)]"
    by (simp add: qe_reconstruct_calls)
  show ?thesis
    using g two vals by (simp add: kmask_def)
qed

lemma flattening_filter_eq:
  "flattening_filter modlmap = map (map Fin) (map (map flat_value) modlmap)"
proof -
  have row: "map2 (\<lambda>v m. if 2 \<le> m \<and> True then v else Fin 0)
               (map (\<lambda>m. np_div (Fin 1) (np_mul (Fin m) (Fin m))) xs) xs
           = map Fin (map flat_value xs)" for xs :: "real list"
    by (induction xs) (auto simp: flat_value_def)
  have "map2 (map2 (\<lambda>v m. if 2 \<le> m \<and> True then v else Fin 0))
          (map (map (\<lambda>m. np_div (Fin 1) (np_mul (Fin m) (Fin m)))) g) g
      = map (map Fin) (map (map flat_value) g)" for g :: "real list list"
    by (induction g) (simp_all only: list.map zip.simps list.case prod.case row)
  then show ?thesis
    by (simp add: flattening_filter_def inverse_L2_def kmask_def)
qed

lemma fourier_multiply_cong:
  assumes "length m1 = N" "length m2 = N"
    and "\<And>k l. k < N \<Longrightarrow> l < N \<Longrightarrow> fwd_coeff N m1 k l * t ! k ! l = fwd_coeff N m2 k l * t ! k ! l"
  shows "fourier_multiply m1 t = fourier_multiply m2 t"
  unfolding fourier_multiply_def Let_def assms(1,2)
  by (intro map_cong refl arg_cong[where f = Re] arg_cong2[where f = "(/)"] sum.cong)
     (simp add: assms(3))

text \<open>
  The \<^verbatim>\<open>return\<close> line once \<open>recon_kappa\<close> is bound. The flattening filter is finite
  everywhere, \<open>1 / L\<^sup>2\<close> where \<open>modlmap = L \<ge> 2\<close> and zero where \<open>modlmap < 2\<close> (also at the
  origin, where \<^verbatim>\<open>1/modlmap**2\<close> is \<open>inf\<close>); every entry of the returned map is minus the
  entry of the filtered map; and two bound maps whose transforms agree at every Fourier
  pixel with \<open>modlmap \<ge> 2\<close> give the same returned map.
\<close>

lemma qe_return_line:
  assumes "is_grid N modlmap" "is_grid N raw" "is_grid N raw'"
    and "\<forall>k<N. \<forall>l<N. 2 \<le> modlmap ! k ! l \<longrightarrow> fwd_coeff N raw' k l = fwd_coeff N raw k l"
  shows "\<exists>out. fst (qe_reconstruct (Some raw) tmap unlensed_cmb_power_2d total_cmb_power_2d
                      ellmin ellmax modlmap ly lx) = Inr (Some out)
             \<and> is_grid N out
             \<and> (\<forall>r<N. \<forall>c<N. out ! r ! c
                   = - (fourier_multiply raw
                          (map (map complex_of_real) (map (map flat_value) modlmap)) ! r ! c))
             \<and> fst (qe_reconstruct (Some raw') tmap unlensed_cmb_power_2d total_cmb_power_2d
                      ellmin ellmax modlmap ly lx) = Inr (Some out)"
proof -
  let ?t = "map (map complex_of_real) (map (map flat_value) modlmap)"
  have val: "fst (qe_reconstruct (Some m) tmap unlensed_cmb_power_2d total_cmb_power_2d
                    ellmin ellmax modlmap ly lx)
           = Inr (Some (neg_grid (fourier_multiply m ?t)))" for m
    by (simp add: qe_reconstruct_def Let_def filter_map_def flattening_filter_eq finite_grid_Fin
        split: prod.splits del: map_map)
  have t: "?t ! k ! l = complex_of_real (flat_value (modlmap ! k ! l))" if "k < N" "l < N" for k l
    using that assms(1) by (simp add: is_grid_length is_gridD)
  have same: "fourier_multiply raw' ?t = fourier_multiply raw ?t"
  proof (rule fourier_multiply_cong[where N = N])
    fix k l assume kl: "k < N" "l < N"
    show "fwd_coeff N raw' k l * ?t ! k ! l = fwd_coeff N raw k l * ?t ! k ! l"
    proof (cases "2 \<le> modlmap ! k ! l")
      case True
      then show ?thesis using assms(4) kl by simp
    next
      case False
      then show ?thesis unfolding t[OF kl] by (simp add: flat_value_def)
    qed
  qed (simp_all add: is_grid_length[OF assms(2)] is_grid_length[OF assms(3)])
  have len: "length raw = N"
    by (rule is_grid_length[OF assms(2)])
  have g: "is_grid N (neg_grid (fourier_multiply raw ?t))"
    by (rule is_gridI) (simp_all add: neg_grid_def fourier_multiply_def Let_def len)
  have neg: "neg_grid (fourier_multiply raw ?t) ! r ! c = - (fourier_multiply raw ?t ! r ! c)"
    if "r < N" "c < N" for r c
    using that by (simp add: neg_grid_def fourier_multiply_def Let_def len)
  show ?thesis
    using val[of raw] val[of raw'] same g neg by simp
qed

lemma qe_reconstruct_unbound:
  "fst (qe_reconstruct None tmap unlensed_cmb_power_2d total_cmb_power_2d ellmin ellmax
          modlmap ly lx) = Inl NameError"
  by (simp add: qe_reconstruct_def Let_def split: prod.splits)

text \<open>
  Claim C8 (the call returns the negation of the raw divergence-based estimate, filtered
  with \<open>1 / L\<^sup>2\<close> above multipole 2) against the code, called as the notebook calls it
  (here on a \<open>2 \<times> 2\<close> grid) with no global \<open>recon_kappa\<close>: the function never assigns
  \<open>recon_kappa\<close>, so the call raises NameError and returns no map.
\<close>

theorem qe_reconstruct_raises_name_error:
  "fst (qe_reconstruct None [[1, 0], [0, 0]] [[1, 2], [2, 4]] [[2, 4], [4, 8]] 10 3000
          [[0, 30], [30, 50]] [[0, 0], [30, 30]] [[0, 30], [0, 30]]) = Inl NameError"
  by (rule qe_reconstruct_unbound)

section \<open>Properties of the store: inputs and results\<close>

lemma frame_refl: "frame s s"
  by (simp add: frame_def)

lemma spectrum_step_writes:
  assumes "spectrum_step ell2d PSMap delta_ell i ell_array CL_array s = (r, s')"
  shows "length s' = length s
       \<and> (\<forall>a<length s. a \<noteq> ell_array \<longrightarrow> a \<noteq> CL_array \<longrightarrow> s' ! a = s ! a)"
  using assms
  by (auto simp: spectrum_step_def Let_def store_write_def split: sum.splits)

lemma fill_spectra_st_writes:
  assumes "fill_spectra_st ell2d PSMap delta_ell N_bins i ell_array CL_array s = (r, s')"
  shows "length s' = length s
       \<and> (\<forall>a<length s. a \<noteq> ell_array \<longrightarrow> a \<noteq> CL_array \<longrightarrow> s' ! a = s ! a)"
  using assms
proof (induction ell2d PSMap delta_ell N_bins i ell_array CL_array s rule: fill_spectra_st.induct)
  case (1 ell2d PSMap delta_ell N_bins i ell_array CL_array s)
  show ?case
  proof (cases "i < N_bins")
    case False
    with "1.prems" show ?thesis by simp
  next
    case True
    obtain e s1 where step: "spectrum_step ell2d PSMap delta_ell i ell_array CL_array s = (e, s1)"
      by (cases "spectrum_step ell2d PSMap delta_ell i ell_array CL_array s")
    note w = spectrum_step_writes[OF step]
    show ?thesis
    proof (cases e)
      case (Some err)
      with "1.prems" True step have "s' = s1" by simp
      with w show ?thesis by simp
    next
      case None
      with "1.prems" True step
      have rec: "fill_spectra_st ell2d PSMap delta_ell N_bins (i + 1) ell_array CL_array s1 = (r, s')"
        by simp
      have "length s' = length s1
          \<and> (\<forall>a<length s1. a \<noteq> ell_array \<longrightarrow> a \<noteq> CL_array \<longrightarrow> s' ! a = s1 ! a)"
        using "1.IH"[OF True _ _ rec] step None by simp
      with w show ?thesis by simp
    qed
  qed
qed

lemma frame_append: "frame s (s @ xs)"
  by (simp add: frame_def nth_append)

lemma loop_frame:
  assumes "fill_spectra_st ell2d PSMap delta_ell N_bins i (length s) (Suc (length s))
             (s @ [a, b]) = (r, s3)"
  shows "frame s s3 \<and> length s3 = length s + 2"
  using fill_spectra_st_writes[OF assms]
  by (auto simp: frame_def nth_append)

lemma calculate_2d_spectrum_st_unfold:
  assumes "delta_ell \<noteq> 0" "\<not> py_int (ell_max / delta_ell) < 0"
  shows "calculate_2d_spectrum_st Map1 Map2 delta_ell ell_max pix_size N s =
     (let s2 = s @ [IntArray (map int [0..<nat (py_int (ell_max / delta_ell))]),
                    FloatArray (replicate (nat (py_int (ell_max / delta_ell))) (Fin 0))]
      in case read_grid s2 Map1 of
           Inl e \<Rightarrow> (Inl e, s2)
         | Inr M1 \<Rightarrow>
       (case read_grid s2 Map2 of
           Inl e \<Rightarrow> (Inl e, s2)
         | Inr M2 \<Rightarrow>
       (case power_map M1 M2 of
           Inl e \<Rightarrow> (Inl e, s2)
         | Inr PSMap \<Rightarrow>
       (case fill_spectra_st (ell2d_grid pix_size N) PSMap delta_ell
               (nat (py_int (ell_max / delta_ell))) 0 (length s) (Suc (length s)) s2 of
           (Some e, s3) \<Rightarrow> (Inl e, s3)
         | (None, s3) \<Rightarrow>
       (case read_floats s3 (Suc (length s)) of
           Inl e \<Rightarrow> (Inl e, s3)
         | Inr CLs \<Rightarrow>
             let (result, s4) = alloc (FloatArray (map (scale_CL pix_size) CLs)) s3
             in (Inr (length s, result), s4))))))"
  using assms by (simp add: calculate_2d_spectrum_st_def alloc_def Let_def)

lemma calculate_2d_spectrum_st_frame:
  assumes "calculate_2d_spectrum_st Map1 Map2 delta_ell ell_max pix_size N s = (res, s')"
  shows "frame s s'
       \<and> (\<forall>e c. res = Inr (e, c) \<longrightarrow>
             e = length s \<and> c = length s + 2 \<and> length s' = length s + 3)"
proof (cases "delta_ell = 0")
  case True
  with assms show ?thesis
    by (auto simp: calculate_2d_spectrum_st_def frame_refl)
next
  case d: False
  show ?thesis
  proof (cases "py_int (ell_max / delta_ell) < 0")
    case True
    with assms d show ?thesis
      by (auto simp: calculate_2d_spectrum_st_def alloc_def Let_def frame_append)
  next
    case nb: False
    define s2 where "s2 = s @ [IntArray (map int [0..<nat (py_int (ell_max / delta_ell))]),
                    FloatArray (replicate (nat (py_int (ell_max / delta_ell))) (Fin 0))]"
    have f2: "frame s s2"
      unfolding s2_def by (rule frame_append)
    note run = assms[unfolded calculate_2d_spectrum_st_unfold[OF d nb] Let_def, folded s2_def]
    show ?thesis
    proof (cases "read_grid s2 Map1")
      case (Inl e)
      with run f2 show ?thesis by auto
    next
      case M1: (Inr M1)
      show ?thesis
      proof (cases "read_grid s2 Map2")
        case (Inl e)
        with run M1 f2 show ?thesis by auto
      next
        case M2: (Inr M2)
        show ?thesis
        proof (cases "power_map M1 M2")
          case (Inl e)
          with run M1 M2 f2 show ?thesis by auto
        next
          case P: (Inr PSMap)
          obtain r s3 where loop: "fill_spectra_st (ell2d_grid pix_size N) PSMap delta_ell
               (nat (py_int (ell_max / delta_ell))) 0 (length s) (Suc (length s)) s2 = (r, s3)"
            by (cases "fill_spectra_st (ell2d_grid pix_size N) PSMap delta_ell
               (nat (py_int (ell_max / delta_ell))) 0 (length s) (Suc (length s)) s2")
          have f3: "frame s s3" "length s3 = length s + 2"
            using loop_frame[OF loop[unfolded s2_def]] by simp_all
          show ?thesis
          proof (cases r)
            case (Some e)
            with run M1 M2 P loop f3 show ?thesis by auto
          next
            case None
            show ?thesis
            proof (cases "read_floats s3 (Suc (length s))")
              case (Inl e)
              with run M1 M2 P loop None f3 show ?thesis by auto
            next
              case (Inr CLs)
              with run M1 M2 P loop None
              have "res = Inr (length s, length s3)"
                   "s' = s3 @ [FloatArray (map (scale_CL pix_size) CLs)]"
                by (auto simp: alloc_def)
              with f3 show ?thesis
                by (auto simp: frame_def nth_append)
            qed
          qed
        qed
      qed
    qed
  qed
qed

lemma lens_map_st_frame:
  assumes "lens_map_st H input_map kappa modlmap ly lx N pix_size s = (res, s')"
  shows "frame s s' \<and> (\<forall>out. res = Inr out \<longrightarrow> out = length s \<and> length s' = length s + 1)"
  using assms
  by (auto simp: lens_map_st_def alloc_def store_write_def Let_def frame_def nth_append
           split: sum.splits)

lemma fill_spectra_st_refines:
  assumes "ell_array < length s" "CL_array < length s" "ell_array \<noteq> CL_array"
    and "s ! ell_array = IntArray ells" "s ! CL_array = FloatArray CLs"
  shows "case fill_spectra ell2d PSMap delta_ell N_bins i (ells, CLs) of
           Inl e \<Rightarrow> fst (fill_spectra_st ell2d PSMap delta_ell N_bins i ell_array CL_array s) = Some e
         | Inr (ells', CLs') \<Rightarrow>
             (\<exists>s'. fill_spectra_st ell2d PSMap delta_ell N_bins i ell_array CL_array s = (None, s')
                  \<and> s' ! ell_array = IntArray ells' \<and> s' ! CL_array = FloatArray CLs')"
  using assms
proof (induction "N_bins - i" arbitrary: i s ells CLs)
  case 0
  then show ?case by simp
next
  case (Suc k)
  then have lt: "i < N_bins" by simp
  let ?ells = "ells[i := py_int ((real i + 0.5) * delta_ell)]"
  let ?inds = "nonzero (bin_mask ell2d (real i * delta_ell) ((real i + 1) * delta_ell))"
  let ?s1 = "store_write ell_array (IntArray ?ells) s"
  have r1: "read_ints s ell_array = Inr ells"
    using Suc.prems by (simp add: read_ints_def lookup_def)
  have r2: "read_floats ?s1 CL_array = Inr CLs"
    using Suc.prems by (simp add: read_floats_def lookup_def store_write_def)
  show ?case
  proof (cases "fancy_index PSMap ?inds")
    case (Inl e)
    have "fill_spectra ell2d PSMap delta_ell N_bins i (ells, CLs) = Inl e"
      using lt Inl by (subst fill_spectra.simps) (simp add: Let_def)
    moreover have "fst (fill_spectra_st ell2d PSMap delta_ell N_bins i ell_array CL_array s) = Some e"
      using lt Inl r1 by (subst fill_spectra_st.simps) (simp add: spectrum_step_def Let_def)
    ultimately show ?thesis by simp
  next
    case (Inr vals)
    let ?CLs = "CLs[i := np_mean vals]"
    let ?s2 = "store_write CL_array (FloatArray ?CLs) ?s1"
    have pure: "fill_spectra ell2d PSMap delta_ell N_bins i (ells, CLs)
              = fill_spectra ell2d PSMap delta_ell N_bins (i + 1) (?ells, ?CLs)"
      using lt Inr by (subst fill_spectra.simps) (simp add: Let_def)
    have st: "fill_spectra_st ell2d PSMap delta_ell N_bins i ell_array CL_array s
            = fill_spectra_st ell2d PSMap delta_ell N_bins (i + 1) ell_array CL_array ?s2"
      using lt Inr r1 r2 by (subst fill_spectra_st.simps) (simp add: spectrum_step_def Let_def)
    have "case fill_spectra ell2d PSMap delta_ell N_bins (i + 1) (?ells, ?CLs) of
           Inl e \<Rightarrow> fst (fill_spectra_st ell2d PSMap delta_ell N_bins (i + 1) ell_array CL_array ?s2) = Some e
         | Inr (ells', CLs') \<Rightarrow>
             (\<exists>s'. fill_spectra_st ell2d PSMap delta_ell N_bins (i + 1) ell_array CL_array ?s2 = (None, s')
                  \<and> s' ! ell_array = IntArray ells' \<and> s' ! CL_array = FloatArray CLs')"
      using Suc.prems Suc.hyps(2) lt
      by (intro Suc.hyps(1)) (simp_all add: store_write_def)
    then show ?thesis
      unfolding pure st .
  qed
qed

lemma calculate_2d_spectrum_st_refines:
  assumes "lookup s Map1 = Some (FloatGrid M1)" "lookup s Map2 = Some (FloatGrid M2)"
  shows "case calculate_2d_spectrum M1 M2 delta_ell ell_max pix_size N of
           Inl e \<Rightarrow> fst (calculate_2d_spectrum_st Map1 Map2 delta_ell ell_max pix_size N s) = Inl e
         | Inr (ells, CLs) \<Rightarrow>
             (\<exists>s'. calculate_2d_spectrum_st Map1 Map2 delta_ell ell_max pix_size N s
                      = (Inr (length s, length s + 2), s')
                  \<and> s' ! length s = IntArray ells \<and> s' ! (length s + 2) = FloatArray CLs)"
proof (cases "delta_ell = 0")
  case True
  then show ?thesis
    by (simp add: calculate_2d_spectrum_def calculate_2d_spectrum_st_def)
next
  case d: False
  show ?thesis
  proof (cases "py_int (ell_max / delta_ell) < 0")
    case True
    with d show ?thesis
      by (simp add: calculate_2d_spectrum_def calculate_2d_spectrum_st_def alloc_def Let_def)
  next
    case nb: False
    let ?nb = "nat (py_int (ell_max / delta_ell))"
    let ?s2 = "s @ [IntArray (map int [0..<?nb]), FloatArray (replicate ?nb (Fin 0))]"
    have M: "read_grid ?s2 Map1 = Inr M1" "read_grid ?s2 Map2 = Inr M2"
      using assms by (auto simp: read_grid_def lookup_def nth_append split: if_splits)
    show ?thesis
    proof (cases "power_map M1 M2")
      case (Inl e)
      with d nb M show ?thesis
        by (simp add: calculate_2d_spectrum_def calculate_2d_spectrum_st_unfold Let_def)
    next
      case (Inr PSMap)
      note loop = fill_spectra_st_refines[of "length s" ?s2 "Suc (length s)"
          "map int [0..<?nb]" "replicate ?nb (Fin 0)" "ell2d_grid pix_size N" PSMap delta_ell ?nb 0]
      show ?thesis
      proof (cases "fill_spectra (ell2d_grid pix_size N) PSMap delta_ell ?nb 0
                      (map int [0..<?nb], replicate ?nb (Fin 0))")
        case (Inl e)
        with loop have "fst (fill_spectra_st (ell2d_grid pix_size N) PSMap delta_ell ?nb 0
                               (length s) (Suc (length s)) ?s2) = Some e"
          by (simp add: nth_append)
        then obtain s3 where "fill_spectra_st (ell2d_grid pix_size N) PSMap delta_ell ?nb 0
                               (length s) (Suc (length s)) ?s2 = (Some e, s3)"
          by (cases "fill_spectra_st (ell2d_grid pix_size N) PSMap delta_ell ?nb 0
                               (length s) (Suc (length s)) ?s2") auto
        with d nb M Inr Inl show ?thesis
          by (simp add: calculate_2d_spectrum_def calculate_2d_spectrum_st_unfold Let_def)
      next
        case res: (Inr pair)
        obtain ells CLs where pair: "pair = (ells, CLs)" by (cases pair)
        with res loop obtain s3 where s3:
          "fill_spectra_st (ell2d_grid pix_size N) PSMap delta_ell ?nb 0
             (length s) (Suc (length s)) ?s2 = (None, s3)"
          "s3 ! length s = IntArray ells" "s3 ! Suc (length s) = FloatArray CLs"
          by (auto simp: nth_append)
        have len: "length s3 = length s + 2"
          using loop_frame[OF s3(1)] by simp
        have rf: "read_floats s3 (Suc (length s)) = Inr CLs"
          using s3(3) len by (simp add: read_floats_def lookup_def)
        show ?thesis
          using d nb M Inr res pair s3 rf len
          by (simp add: calculate_2d_spectrum_def calculate_2d_spectrum_st_unfold Let_def
              alloc_def nth_append)
      qed
    qed
  qed
qed

text \<open>
  Claim C9. A call of \<open>calculate_2d_spectrum\<close>, whatever its outcome, leaves the arrays
  \<open>Map1\<close> and \<open>Map2\<close> (and every other array that exists before the call) unchanged, and
  the two arrays it returns are new: their addresses are not in the store of the call,
  so they differ from the inputs, and they differ from each other. The same holds for
  \<open>lens_map\<close>, \<open>input_map\<close> and the returned \<open>output_map\<close>.
\<close>

theorem inputs_unchanged_results_fresh:
  assumes "Map1 < length s" "Map2 < length s" "input_map < length t"
    and "calculate_2d_spectrum_st Map1 Map2 delta_ell ell_max pix_size N s = (res, s')"
    and "lens_map_st H input_map kappa modlmap ly lx N' pix_size' t = (res', t')"
  shows "s' ! Map1 = s ! Map1 \<and> s' ! Map2 = s ! Map2 \<and> frame s s'
       \<and> (\<forall>e c. res = Inr (e, c) \<longrightarrow>
             e \<noteq> Map1 \<and> e \<noteq> Map2 \<and> c \<noteq> Map1 \<and> c \<noteq> Map2 \<and> e \<noteq> c
             \<and> length s \<le> e \<and> length s \<le> c \<and> e < length s' \<and> c < length s')
       \<and> t' ! input_map = t ! input_map \<and> frame t t'
       \<and> (\<forall>out. res' = Inr out \<longrightarrow> out \<noteq> input_map \<and> length t \<le> out \<and> out < length t')"
proof -
  note a = calculate_2d_spectrum_st_frame[OF assms(4)]
  note b = lens_map_st_frame[OF assms(5)]
  have "s' ! Map1 = s ! Map1" "s' ! Map2 = s ! Map2" "t' ! input_map = t ! input_map"
    using a b assms(1-3) by (simp_all add: frame_def)
  moreover have "\<forall>e c. res = Inr (e, c) \<longrightarrow>
             e \<noteq> Map1 \<and> e \<noteq> Map2 \<and> c \<noteq> Map1 \<and> c \<noteq> Map2 \<and> e \<noteq> c
             \<and> length s \<le> e \<and> length s \<le> c \<and> e < length s' \<and> c < length s'"
    using a assms(1,2) by auto
  moreover have "\<forall>out. res' = Inr out \<longrightarrow> out \<noteq> input_map \<and> length t \<le> out \<and> out < length t'"
    using b assms(3) by auto
  ultimately show ?thesis
    using a b by simp
qed

theorem inputs_unchanged_results_fresh_witness:
  "(0::nat) < length [FloatGrid [[1, 0], [0, 0]]]
   \<and> (\<exists>s'. calculate_2d_spectrum_st 0 0 1 2 10800 2 [FloatGrid [[1, 0], [0, 0]]]
              = (Inr (1, 3), s')
          \<and> s' ! 0 = FloatGrid [[1, 0], [0, 0]]
          \<and> s' ! 1 = IntArray [0, 1] \<and> s' ! 3 = FloatArray [NaN, Fin (sqrt pi / 8)])
   \<and> lens_map_st identity_lens 0 0 0 0 0 2 10800 [FloatGrid [[1, 0], [0, 0]]]
       = (Inr 1, [FloatGrid [[1, 0], [0, 0]], FloatGrid [[1, 0], [0, 0]]])"
proof -
  let ?A = "[[1, 0], [0, 0::real]]"
  let ?s = "[FloatGrid ?A]"
  have look: "lookup ?s 0 = Some (FloatGrid ?A)"
    by (simp add: lookup_def)
  have pure: "calculate_2d_spectrum ?A ?A 1 2 10800 2 = Inr ([0, 1], [NaN, Fin (sqrt pi / 8)])"
    using spectrum_2x2_value[of 10800] by (simp add: scale_CL_def)
  obtain s' where run: "calculate_2d_spectrum_st 0 0 1 2 10800 2 ?s = (Inr (1, 3), s')"
      and vals: "s' ! 1 = IntArray [0, 1]" "s' ! 3 = FloatArray [NaN, Fin (sqrt pi / 8)]"
    using calculate_2d_spectrum_st_refines[OF look look, of 1 2 10800 2] pure
    by (auto simp: numeral_3_eq_3)
  have lens: "lens_map_st identity_lens 0 0 0 0 0 2 10800 ?s = (Inr 1, [FloatGrid ?A, FloatGrid ?A])"
    by (simp add: lens_map_st_def read_grid_def lookup_def alloc_def store_write_def
        identity_lens_def)
  have l: "(0::nat) < length ?s" by simp
  from inputs_unchanged_results_fresh [OF l l l run lens]
  have "s' ! 0 = ?s ! 0" by blast
  with run vals lens show ?thesis by auto
qed

section \<open>Properties of the Gaussian beam\<close>

lemma deg2rad_pos: "0 < d \<Longrightarrow> 0 < deg2rad d"
  by (simp add: deg2rad_def)

text \<open>
  Claim C10. For every \<open>fwhm > 0\<close> and every real \<open>ell\<close>, the beam is
  \<open>exp (- (deg2rad (fwhm/60))\<^sup>2 \<cdot> ell\<^sup>2 / (16 \<cdot> ln 2))\<close>; it lies in the interval \<open>(0, 1]\<close>,
  it is 1 exactly when \<open>ell = 0\<close>, and it is never zero, so dividing by it is defined.
\<close>

theorem gauss_beam_range:
  assumes "0 < fwhm"
  shows "gauss_beam ell fwhm = exp (- ((deg2rad (fwhm / 60))\<^sup>2 * ell\<^sup>2 / (16 * ln 2)))
       \<and> 0 < gauss_beam ell fwhm \<and> gauss_beam ell fwhm \<le> 1
       \<and> (gauss_beam ell fwhm = 1 \<longleftrightarrow> ell = 0)
       \<and> gauss_beam ell fwhm \<noteq> 0"
proof -
  define t where "t = deg2rad (fwhm / 60)"
  have tpos: "0 < t"
    using assms by (simp add: t_def deg2rad_pos)
  have eq: "gauss_beam ell fwhm = exp (- (t\<^sup>2 * ell\<^sup>2 / (16 * ln 2)))"
    by (simp add: gauss_beam_def t_def)
  have nonneg: "0 \<le> t\<^sup>2 * ell\<^sup>2 / (16 * ln 2)"
    by (intro divide_nonneg_pos mult_nonneg_nonneg) simp_all
  have zero_iff: "t\<^sup>2 * ell\<^sup>2 / (16 * ln 2) = 0 \<longleftrightarrow> ell = 0"
    using tpos by simp
  have le1: "exp (- (t\<^sup>2 * ell\<^sup>2 / (16 * ln 2))) \<le> 1"
    using nonneg by simp
  have one_iff: "exp (- (t\<^sup>2 * ell\<^sup>2 / (16 * ln 2))) = 1 \<longleftrightarrow> ell = 0"
    using zero_iff by simp
  show ?thesis
    unfolding eq using le1 one_iff by (simp add: t_def)
qed

theorem gauss_beam_range_witness:
  "(0::real) < 1 \<and> 0 < gauss_beam 0 1 \<and> gauss_beam 0 1 \<le> 1 \<and> gauss_beam 0 1 = 1"
  using gauss_beam_range [of 1 0] by simp

end
